theory Spec2Isabelle
  imports Main "HOL-Library.Word" "HOL-Library.List_Lexorder" "HOL-Library.Product_Lexorder"
    "HOL-Library.Sublist"
begin

unbundle bit_operations_syntax

section \<open>Bytes, addresses and machine integers\<close>

text \<open>
  The keeper of the gravity module (keeper.go, batch.go) works on one ordered byte-keyed
  store. Go's \<open>uint64\<close> is \<open>64 word\<close> (addition wraps), \<open>common.Address\<close> is a
  20-byte value, kept as a 160-bit word, and \<open>[]byte\<close> is a list of 8-bit words, compared
  lexicographically as \<open>bytes.Compare\<close> does.
\<close>

type_synonym byte = "8 word"
type_synonym bytes = "byte list"
type_synonym u64 = "64 word"
type_synonym address = "160 word"

text \<open>The \<open>n\<close> low bytes of a word, most significant first.\<close>

fun be_bytes :: "nat \<Rightarrow> 'a::len word \<Rightarrow> bytes" where
  "be_bytes 0 w = []"
| "be_bytes (Suc n) w = ucast (drop_bit (8 * n) w) # be_bytes n w"

text \<open>\<open>sdk.Uint64ToBigEndian\<close>: the eight bytes of a \<open>uint64\<close>, big-endian.\<close>

definition Uint64ToBigEndian :: "u64 \<Rightarrow> bytes" where
  "Uint64ToBigEndian i = be_bytes 8 i"

text \<open>\<open>common.Address.Bytes\<close>: the twenty bytes of an address.\<close>

definition AddressBytes :: "address \<Rightarrow> bytes" where
  "AddressBytes a = be_bytes 20 a"

text \<open>
  \<open>common.BytesToAddress\<close>: the last twenty bytes of the argument, padded with zero bytes
  on the left when it is shorter. Reading the bytes as one big-endian number and keeping
  its low 160 bits is the same.
\<close>

definition BytesToAddress :: "bytes \<Rightarrow> address" where
  "BytesToAddress b = word_rcat b"

text \<open>\<open>bytes.TrimPrefix\<close>: drops the prefix when it is there, and nothing otherwise.\<close>

definition TrimPrefix :: "bytes \<Rightarrow> bytes \<Rightarrow> bytes" where
  "TrimPrefix s p = (if prefix p s then drop (length p) s else s)"

text \<open>\<open>math.MaxUint32\<close>.\<close>

definition MaxUint32 :: nat where
  "MaxUint32 = 4294967295"

section \<open>Key layout\<close>

text \<open>
  Modelled from the spec: the one-byte key prefixes and the store-index tags are constants
  of the module's \<open>types\<close> package, which is not among the sources. The spec fixes only
  that each key space has its own one-byte prefix and each outgoing-tx variant its own
  one-byte tag; the numbers below are placeholders, and every proof uses only that they
  differ from each other.
\<close>

definition ValidatorEthereumAddressKey :: byte where
  "ValidatorEthereumAddressKey = 1"

definition OrchestratorValidatorAddressKey :: byte where
  "OrchestratorValidatorAddressKey = 2"

definition EthereumOrchestratorAddressKey :: byte where
  "EthereumOrchestratorAddressKey = 3"

definition EthereumSignatureKey :: byte where
  "EthereumSignatureKey = 4"

definition SignerSetTxPrefixByte :: byte where
  "SignerSetTxPrefixByte = 1"

definition BatchTxPrefixByte :: byte where
  "BatchTxPrefixByte = 2"

definition ContractCallTxPrefixByte :: byte where
  "ContractCallTxPrefixByte = 3"

text \<open>
  Modelled from the spec: the key constructors of the \<open>types\<close> package. A directory key is
  the prefix byte followed by the address bytes (section 4.5); a signature key is the
  signature prefix, the store index and the validator address (section 3).
\<close>

definition MakeValidatorEthereumAddressKey :: "bytes \<Rightarrow> bytes" where
  "MakeValidatorEthereumAddressKey valAddr = ValidatorEthereumAddressKey # valAddr"

definition MakeOrchestratorValidatorAddressKey :: "bytes \<Rightarrow> bytes" where
  "MakeOrchestratorValidatorAddressKey orchAddr = OrchestratorValidatorAddressKey # orchAddr"

definition MakeEthereumOrchestratorAddressKey :: "address \<Rightarrow> bytes" where
  "MakeEthereumOrchestratorAddressKey ethAddr =
     EthereumOrchestratorAddressKey # AddressBytes ethAddr"

definition MakeEthereumSignatureKey :: "bytes \<Rightarrow> bytes \<Rightarrow> bytes" where
  "MakeEthereumSignatureKey storeIndex validator =
     EthereumSignatureKey # storeIndex @ validator"

text \<open>
  Modelled from the spec: the store index of an outgoing tx (section 3) is the tag of its
  variant followed by its identity.
\<close>

definition MakeSignerSetTxKey :: "u64 \<Rightarrow> bytes" where
  "MakeSignerSetTxKey nonce = SignerSetTxPrefixByte # Uint64ToBigEndian nonce"

definition MakeBatchTxKey :: "address \<Rightarrow> u64 \<Rightarrow> bytes" where
  "MakeBatchTxKey addr nonce = BatchTxPrefixByte # AddressBytes addr @ Uint64ToBigEndian nonce"

definition MakeContractCallTxKey :: "bytes \<Rightarrow> u64 \<Rightarrow> bytes" where
  "MakeContractCallTxKey invalScope invalNonce =
     ContractCallTxPrefixByte # invalScope @ Uint64ToBigEndian invalNonce"

section \<open>The key-value store\<close>

text \<open>
  The part of the module's store whose values are plain byte strings (the address
  directory and the signature index) is an association list. \<open>Set\<close> overwrites, \<open>Get\<close>
  of an absent key is \<open>nil\<close> (here \<open>None\<close>), and an iterator walks the entries in
  ascending key order.
\<close>

type_synonym kvstore = "(bytes \<times> bytes) list"

definition store_get :: "kvstore \<Rightarrow> bytes \<Rightarrow> bytes option" where
  "store_get st k = map_of st k"

definition store_set :: "bytes \<Rightarrow> bytes \<Rightarrow> kvstore \<Rightarrow> kvstore" where
  "store_set k v st = (k, v) # filter (\<lambda>e. fst e \<noteq> k) st"

definition store_delete :: "bytes \<Rightarrow> kvstore \<Rightarrow> kvstore" where
  "store_delete k st = filter (\<lambda>e. fst e \<noteq> k) st"

definition store_iterator :: "kvstore \<Rightarrow> (bytes \<times> bytes) list" where
  "store_iterator st = sort_key fst st"

text \<open>\<open>prefix.NewStore(store, p).Iterator(nil, nil)\<close>: the entries under a prefix.\<close>

definition prefix_iterator :: "bytes \<Rightarrow> kvstore \<Rightarrow> (bytes \<times> bytes) list" where
  "prefix_iterator p st = filter (\<lambda>e. prefix p (fst e)) (store_iterator st)"

text \<open>
  A callback iteration: the callback returns the new accumulator and the stop flag of
  the Go closure; \<open>true\<close> ends the walk.
\<close>

fun iterate_cb :: "('a \<Rightarrow> 'st \<Rightarrow> 'st \<times> bool) \<Rightarrow> 'a list \<Rightarrow> 'st \<Rightarrow> 'st" where
  "iterate_cb cb [] st = st"
| "iterate_cb cb (x # xs) st =
     (case cb x st of (st', stop) \<Rightarrow> if stop then st' else iterate_cb cb xs st')"

section \<open>Data model\<close>

text \<open>
  Modelled from the spec: the message types of the \<open>types\<close> package (section 3), with
  the field names the keeper uses. Token amounts are unbounded non-negative integers.
  The Go structs hold a contract address as its hex string; the model holds the address
  the string denotes, so comparing two such strings is comparing two addresses.
\<close>

record erc20_token =
  Contract :: address
  Amount :: nat

record send_to_ethereum =
  Id :: u64
  Sender :: string
  EthereumRecipient :: address
  Erc20Token :: erc20_token
  Erc20Fee :: erc20_token

record batch_tx =
  BatchNonce :: u64
  Timeout :: u64
  Transactions :: "send_to_ethereum list"
  TokenContract :: address
  Height :: u64

record ethereum_signer =
  Power :: u64
  EthereumAddress :: address

record signer_set_tx =
  Nonce :: u64
  SignerSetHeight :: u64
  Signers :: "ethereum_signer list"

record contract_call_tx =
  InvalidationNonce :: u64
  InvalidationScope :: bytes
  CallAddress :: address
  Payload :: bytes
  CallTimeout :: u64
  Tokens :: "erc20_token list"
  Fees :: "erc20_token list"
  CallHeight :: u64

datatype outgoing_tx =
  SignerSetTx signer_set_tx
| BatchTx batch_tx
| ContractCallTx contract_call_tx

record latest_ethereum_block_height =
  EthereumHeight :: u64
  CosmosHeight :: u64

record params =
  BridgeEthereumAddress :: string
  BridgeChainID :: u64
  AverageBlockTime :: u64
  AverageEthereumBlockTime :: u64
  TargetEthTxTimeout :: u64
  BridgeActive :: bool

record ethereum_event_vote_record =
  Votes :: "string list"

text \<open>The events of section 6, with the attributes the keeper fills in.\<close>

datatype event =
  EventOutgoingBatch string u64 u64
| EventOutgoingBatchCanceled string u64 u64
| EventMultisigUpdateRequest string u64 u64

text \<open>
  Every \<open>panic\<close> and every returned error of the modelled functions.
\<close>

datatype error =
  ErrInvalid
| ErrBurnFailed
| PanicDivisionByZero
| PanicUint64OutOfBound
| PanicBech32
| PanicNilDereference

text \<open>
  The state the keeper reads and writes. \<open>kv\<close> is the byte-valued part of the store.
  The key spaces whose values go through the codec are kept decoded: an outgoing tx is
  only ever written by \<open>SetOutgoingTx\<close>, under the key made of its own store index, so
  \<open>outgoing\<close> holds the values and the key of each is read off it; the counters are
  only ever written as eight big-endian bytes and are kept as \<open>uint64\<close>, \<open>None\<close> when
  the key is absent. \<open>events\<close> is the event manager's log and \<open>burn_calls\<close> the calls
  made to the bank keeper, both in the order they are made.
\<close>

record keeper_state =
  kv :: kvstore
  outgoing :: "outgoing_tx list"
  unbatched :: "send_to_ethereum list"
  last_outgoing_batch_nonce :: "u64 option"
  latest_signer_set_tx_nonce :: "u64 option"
  last_ethereum_block_height :: "latest_ethereum_block_height option"
  last_observed_signer_set :: "signer_set_tx option"
  last_observed_event_nonce :: "u64 option"
  last_event_nonce_by_validator :: "(bytes \<times> u64) list"
  event_vote_records :: "(bytes \<times> ethereum_event_vote_record) list"
  module_params :: params
  events :: "event list"
  burn_calls :: "(string \<times> nat) list"

text \<open>
  The collaborators outside the module (section 6) and the block context: the staking
  keeper's bonded validators (by operator address) and their last power already converted
  to \<open>uint64\<close>, the ERC20-to-denom directory, whether the bank keeper accepts a burn,
  the bech32 decoder of validator addresses, and \<open>uint64(ctx.BlockHeight())\<close>.
\<close>

record env =
  BlockHeight :: u64
  GetBondedValidatorsByPower :: "bytes list"
  GetLastValidatorPower :: "bytes \<Rightarrow> u64"
  ERC20ToDenomLookup :: "address \<Rightarrow> bool \<times> string"
  BurnCoinsSucceeds :: "string \<Rightarrow> nat \<Rightarrow> bool"
  ValAddressFromBech32 :: "string \<Rightarrow> bytes option"

section \<open>Address directory\<close>

definition SetOrchestratorValidatorAddress :: "bytes \<Rightarrow> bytes \<Rightarrow> keeper_state \<Rightarrow> keeper_state" where
  "SetOrchestratorValidatorAddress val orchAddr s =
     s\<lparr>kv := store_set (MakeOrchestratorValidatorAddressKey orchAddr) val (kv s)\<rparr>"

definition GetOrchestratorValidatorAddress :: "keeper_state \<Rightarrow> bytes \<Rightarrow> bytes option" where
  "GetOrchestratorValidatorAddress s orchAddr =
     store_get (kv s) (MakeOrchestratorValidatorAddressKey orchAddr)"

definition setValidatorEthereumAddress :: "bytes \<Rightarrow> address \<Rightarrow> keeper_state \<Rightarrow> keeper_state" where
  "setValidatorEthereumAddress valAddr ethAddr s =
     s\<lparr>kv := store_set (MakeValidatorEthereumAddressKey valAddr) (AddressBytes ethAddr) (kv s)\<rparr>"

text \<open>An absent key reads as \<open>nil\<close>, which \<open>BytesToAddress\<close> turns into the zero address.\<close>

definition GetValidatorEthereumAddress :: "keeper_state \<Rightarrow> bytes \<Rightarrow> address" where
  "GetValidatorEthereumAddress s valAddr =
     BytesToAddress (case store_get (kv s) (MakeValidatorEthereumAddressKey valAddr) of
                       None \<Rightarrow> [] | Some b \<Rightarrow> b)"

text \<open>
  The iterator of \<open>getValidatorsByEthereumAddress\<close> is opened on the store itself,
  \<open>Iterator(nil, nil)\<close>, not on the prefix of the validator index. The model walks the
  byte-valued part of the store, where the directory lives.
\<close>

definition getValidatorsByEthereumAddress :: "keeper_state \<Rightarrow> address \<Rightarrow> bytes list" where
  "getValidatorsByEthereumAddress s ethAddr =
     map (\<lambda>e. TrimPrefix (fst e) [ValidatorEthereumAddressKey])
       (filter (\<lambda>e. BytesToAddress (snd e) = ethAddr) (store_iterator (kv s)))"

definition setEthereumOrchestratorAddress :: "address \<Rightarrow> bytes \<Rightarrow> keeper_state \<Rightarrow> keeper_state" where
  "setEthereumOrchestratorAddress ethAddr orch s =
     s\<lparr>kv := store_set (MakeEthereumOrchestratorAddressKey ethAddr) orch (kv s)\<rparr>"

definition GetEthereumOrchestratorAddress :: "keeper_state \<Rightarrow> address \<Rightarrow> bytes option" where
  "GetEthereumOrchestratorAddress s ethAddr =
     store_get (kv s) (MakeEthereumOrchestratorAddressKey ethAddr)"

text \<open>
  The reverse lookup as section 4.5 words it: a scan of the forward index from validator
  to foreign address, and of nothing else.
\<close>

definition validatorsByForeignAddress_spec :: "keeper_state \<Rightarrow> address \<Rightarrow> bytes list" where
  "validatorsByForeignAddress_spec s ethAddr =
     map (\<lambda>e. TrimPrefix (fst e) [ValidatorEthereumAddressKey])
       (filter (\<lambda>e. BytesToAddress (snd e) = ethAddr)
         (prefix_iterator [ValidatorEthereumAddressKey] (kv s)))"

section \<open>Signer set\<close>

text \<open>The first loop of \<open>CurrentSignerSet\<close>; \<open>totalPower\<close> is a \<open>uint64\<close> and wraps.\<close>

fun collect_signers ::
  "env \<Rightarrow> keeper_state \<Rightarrow> bytes list \<Rightarrow> ethereum_signer list \<times> u64 \<Rightarrow> ethereum_signer list \<times> u64"
where
  "collect_signers e s [] acc = acc"
| "collect_signers e s (val # validators) (ethereumSigners, totalPower) =
     (let p = GetLastValidatorPower e val;
          ethAddr = GetValidatorEthereumAddress s val
      in if ethAddr \<noteq> 0
         then collect_signers e s validators
                (ethereumSigners @ [\<lparr>Power = p, EthereumAddress = ethAddr\<rparr>], totalPower + p)
         else collect_signers e s validators (ethereumSigners, totalPower))"

text \<open>
  \<open>sdk.NewUint(p).MulUint64(math.MaxUint32).QuoUint64(totalPower).Uint64()\<close>: the product
  is taken on unbounded integers, the quotient panics on a zero divisor, and \<open>Uint64()\<close>
  panics when the quotient does not fit.
\<close>

definition normalize_power :: "u64 \<Rightarrow> u64 \<Rightarrow> error + u64" where
  "normalize_power p totalPower =
     (if totalPower = 0 then Inl PanicDivisionByZero
      else let q = (unat p * MaxUint32) div unat totalPower
           in if q < 2 ^ 64 then Inr (word_of_nat q) else Inl PanicUint64OutOfBound)"

fun normalize_signers :: "u64 \<Rightarrow> ethereum_signer list \<Rightarrow> error + ethereum_signer list" where
  "normalize_signers totalPower [] = Inr []"
| "normalize_signers totalPower (es # rest) =
     (case normalize_power (Power es) totalPower of
        Inl err \<Rightarrow> Inl err
      | Inr q \<Rightarrow>
          (case normalize_signers totalPower rest of
             Inl err \<Rightarrow> Inl err
           | Inr rest' \<Rightarrow> Inr (es\<lparr>Power := q\<rparr> # rest')))"

definition CurrentSignerSet :: "env \<Rightarrow> keeper_state \<Rightarrow> error + ethereum_signer list" where
  "CurrentSignerSet e s =
     (case collect_signers e s (GetBondedValidatorsByPower e) ([], 0) of
        (ethereumSigners, totalPower) \<Rightarrow> normalize_signers totalPower ethereumSigners)"

section \<open>Outgoing-tx store\<close>

fun GetStoreIndex :: "outgoing_tx \<Rightarrow> bytes" where
  "GetStoreIndex (SignerSetTx u) = MakeSignerSetTxKey (Nonce u)"
| "GetStoreIndex (BatchTx b) = MakeBatchTxKey (TokenContract b) (BatchNonce b)"
| "GetStoreIndex (ContractCallTx c) =
     MakeContractCallTxKey (InvalidationScope c) (InvalidationNonce c)"

text \<open>An absent key decodes to the \<open>nil\<close> interface value, here \<open>None\<close>.\<close>

definition GetOutgoingTx :: "keeper_state \<Rightarrow> bytes \<Rightarrow> outgoing_tx option" where
  "GetOutgoingTx s storeIndex = find (\<lambda>otx. GetStoreIndex otx = storeIndex) (outgoing s)"

definition SetOutgoingTx :: "outgoing_tx \<Rightarrow> keeper_state \<Rightarrow> keeper_state" where
  "SetOutgoingTx otx s =
     s\<lparr>outgoing := otx # filter (\<lambda>x. GetStoreIndex x \<noteq> GetStoreIndex otx) (outgoing s)\<rparr>"

definition DeleteOutgoingTx :: "bytes \<Rightarrow> keeper_state \<Rightarrow> keeper_state" where
  "DeleteOutgoingTx storeIndex s =
     s\<lparr>outgoing := filter (\<lambda>x. GetStoreIndex x \<noteq> storeIndex) (outgoing s)\<rparr>"

text \<open>
  The reverse iterators over the outgoing-tx prefix: descending key order. The callbacks
  below delete only the entry they are called on and write only to other key spaces, so
  walking the entries found when the iterator is opened is walking the live store.
\<close>

definition iterateOutgoingTxs :: "keeper_state \<Rightarrow> outgoing_tx list" where
  "iterateOutgoingTxs s = rev (sort_key GetStoreIndex (outgoing s))"

definition IterateOutgoingTxsByType :: "keeper_state \<Rightarrow> byte \<Rightarrow> outgoing_tx list" where
  "IterateOutgoingTxsByType s prefixByte =
     filter (\<lambda>otx. prefix [prefixByte] (GetStoreIndex otx)) (iterateOutgoingTxs s)"

text \<open>A callback iteration whose callback may panic.\<close>

fun iterate_cb_err ::
  "('a \<Rightarrow> 'st \<Rightarrow> error + 'st \<times> bool) \<Rightarrow> 'a list \<Rightarrow> 'st \<Rightarrow> error + 'st" where
  "iterate_cb_err cb [] st = Inr st"
| "iterate_cb_err cb (x # xs) st =
     (case cb x st of
        Inl err \<Rightarrow> Inl err
      | Inr (st', stop) \<Rightarrow> if stop then Inr st' else iterate_cb_err cb xs st')"

definition EmitEvent :: "event \<Rightarrow> keeper_state \<Rightarrow> keeper_state" where
  "EmitEvent ev s = s\<lparr>events := events s @ [ev]\<rparr>"

definition getBridgeContractAddress :: "keeper_state \<Rightarrow> string" where
  "getBridgeContractAddress s = BridgeEthereumAddress (module_params s)"

definition getBridgeChainID :: "keeper_state \<Rightarrow> u64" where
  "getBridgeChainID s = BridgeChainID (module_params s)"

section \<open>Unbatched pool\<close>

text \<open>
  Modelled from the spec: the pool functions live in a file that is not among the sources.
  Section 2 makes the pool an index ordered by token contract, fee amount descending, and
  id; batch.go deletes an entry by its id and fee, so the key of an entry is the contract
  and amount of its fee and its id. Setting overwrites the entry under the same key.
  Iterating by contract walks the entries of that contract from the highest fee down, and
  among equal fees from the highest id down.
\<close>

definition MakeSendToEthereumKey :: "u64 \<Rightarrow> erc20_token \<Rightarrow> address \<times> nat \<times> u64" where
  "MakeSendToEthereumKey txId fee = (Contract fee, Amount fee, txId)"

definition pool_key :: "send_to_ethereum \<Rightarrow> address \<times> nat \<times> u64" where
  "pool_key ste = MakeSendToEthereumKey (Id ste) (Erc20Fee ste)"

definition setUnbatchedSendToEthereum :: "send_to_ethereum \<Rightarrow> keeper_state \<Rightarrow> keeper_state" where
  "setUnbatchedSendToEthereum ste s =
     s\<lparr>unbatched := ste # filter (\<lambda>x. pool_key x \<noteq> pool_key ste) (unbatched s)\<rparr>"

definition deleteUnbatchedSendToEthereum :: "u64 \<Rightarrow> erc20_token \<Rightarrow> keeper_state \<Rightarrow> keeper_state" where
  "deleteUnbatchedSendToEthereum txId fee s =
     s\<lparr>unbatched := filter (\<lambda>x. pool_key x \<noteq> MakeSendToEthereumKey txId fee) (unbatched s)\<rparr>"

definition iterateUnbatchedSendToEthereumsByContract ::
  "keeper_state \<Rightarrow> address \<Rightarrow> send_to_ethereum list" where
  "iterateUnbatchedSendToEthereumsByContract s contract =
     rev (sort_key (\<lambda>x. (Amount (Erc20Fee x), Id x))
            (filter (\<lambda>x. Contract (Erc20Fee x) = contract) (unbatched s)))"

section \<open>Batches\<close>

text \<open>Modelled from the spec: the fees of a batch are the sum of its transactions' fees.\<close>

definition GetFees :: "batch_tx \<Rightarrow> nat" where
  "GetFees b = sum_list (map (\<lambda>tx. Amount (Erc20Fee tx)) (Transactions b))"

text \<open>The callback of \<open>getBatchFeesByTokenType\<close>; \<open>i\<close> and \<open>maxElements\<close> are Go \<open>int\<close>.\<close>

definition fees_cb :: "int \<Rightarrow> send_to_ethereum \<Rightarrow> nat \<times> int \<Rightarrow> (nat \<times> int) \<times> bool" where
  "fees_cb maxElements tx acc =
     (case acc of (feeAmount, i) \<Rightarrow>
        ((feeAmount + Amount (Erc20Fee tx), i + 1), i + 1 = maxElements))"

definition getBatchFeesByTokenType :: "keeper_state \<Rightarrow> address \<Rightarrow> int \<Rightarrow> nat" where
  "getBatchFeesByTokenType s tokenContractAddr maxElements =
     fst (iterate_cb (fees_cb maxElements)
            (iterateUnbatchedSendToEthereumsByContract s tokenContractAddr) (0, 0))"

text \<open>
  The callback of \<open>getLastOutgoingBatchByTokenType\<close>. The type assertion
  \<open>btx, _ := otx.(*types.BatchTx)\<close> leaves \<open>nil\<close> on another variant, and reading a field
  of it panics.
\<close>

definition last_batch_cb ::
  "address \<Rightarrow> outgoing_tx \<Rightarrow> batch_tx option \<times> u64 \<Rightarrow> error + (batch_tx option \<times> u64) \<times> bool" where
  "last_batch_cb token otx acc =
     (case acc of (lastBatch, lastNonce) \<Rightarrow>
        (case otx of
           BatchTx btx \<Rightarrow>
             if TokenContract btx = token \<and> lastNonce < BatchNonce btx
             then Inr ((Some btx, BatchNonce btx), False)
             else Inr ((lastBatch, lastNonce), False)
         | _ \<Rightarrow> Inl PanicNilDereference))"

definition getLastOutgoingBatchByTokenType :: "keeper_state \<Rightarrow> address \<Rightarrow> error + batch_tx option" where
  "getLastOutgoingBatchByTokenType s token =
     (case iterate_cb_err (last_batch_cb token)
             (IterateOutgoingTxsByType s BatchTxPrefixByte) (None, 0) of
        Inl err \<Rightarrow> Inl err
      | Inr (lastBatch, lastNonce) \<Rightarrow> Inr lastBatch)"

definition incrementLastOutgoingBatchNonce :: "keeper_state \<Rightarrow> u64 \<times> keeper_state" where
  "incrementLastOutgoingBatchNonce s =
     (let lastId = (case last_outgoing_batch_nonce s of None \<Rightarrow> 0 | Some v \<Rightarrow> v);
          newId = lastId + 1
      in (newId, s\<lparr>last_outgoing_batch_nonce := Some newId\<rparr>))"

text \<open>
  Modelled from the spec: the last observed heights are a stored record, read as zero
  heights when nothing is stored (sections 4.2 and 4.6).
\<close>

definition GetLastObservedEthereumBlockHeight :: "keeper_state \<Rightarrow> latest_ethereum_block_height" where
  "GetLastObservedEthereumBlockHeight s =
     (case last_ethereum_block_height s of
        None \<Rightarrow> \<lparr>EthereumHeight = 0, CosmosHeight = 0\<rparr>
      | Some h \<Rightarrow> h)"

text \<open>Go's integer division panics on a zero divisor.\<close>

definition getTimeoutHeight :: "env \<Rightarrow> keeper_state \<Rightarrow> error + u64" where
  "getTimeoutHeight e s =
     (let params = module_params s;
          currentCosmosHeight = BlockHeight e;
          heights = GetLastObservedEthereumBlockHeight s
      in if CosmosHeight heights = 0 \<or> EthereumHeight heights = 0 then Inr 0
         else if AverageEthereumBlockTime params = 0 then Inl PanicDivisionByZero
         else
           let projectedMillis = (currentCosmosHeight - CosmosHeight heights) * AverageBlockTime params;
               projectedCurrentEthereumHeight =
                 projectedMillis div AverageEthereumBlockTime params + EthereumHeight heights;
               blocksToAdd = TargetEthTxTimeout params div AverageEthereumBlockTime params
           in Inr (projectedCurrentEthereumHeight + blocksToAdd))"

text \<open>The selection callback of \<open>BuildBatchTx\<close>.\<close>

definition select_cb ::
  "int \<Rightarrow> send_to_ethereum \<Rightarrow> send_to_ethereum list \<times> keeper_state \<Rightarrow>
     (send_to_ethereum list \<times> keeper_state) \<times> bool" where
  "select_cb maxElements ste acc =
     (case acc of (selectedStes, s) \<Rightarrow>
        ((selectedStes @ [ste], deleteUnbatchedSendToEthereum (Id ste) (Erc20Fee ste) s),
         int (length (selectedStes @ [ste])) = maxElements))"

definition BuildBatchTx ::
  "env \<Rightarrow> address \<Rightarrow> int \<Rightarrow> keeper_state \<Rightarrow> error + batch_tx option \<times> keeper_state" where
  "BuildBatchTx e contractAddress maxElements s =
     (if maxElements = 0 then Inr (None, s)
      else
        case getLastOutgoingBatchByTokenType s contractAddress of
          Inl err \<Rightarrow> Inl err
        | Inr lastBatch \<Rightarrow>
            if (case lastBatch of
                  None \<Rightarrow> False
                | Some lb \<Rightarrow> getBatchFeesByTokenType s contractAddress maxElements \<le> GetFees lb)
            then Inr (None, s)
            else
              case iterate_cb (select_cb maxElements)
                     (iterateUnbatchedSendToEthereumsByContract s contractAddress) ([], s) of
                (selectedStes, s1) \<Rightarrow>
                  if length selectedStes = 0 then Inr (None, s1)
                  else
                    case incrementLastOutgoingBatchNonce s1 of
                      (nonce, s2) \<Rightarrow>
                        case getTimeoutHeight e s2 of
                          Inl err \<Rightarrow> Inl err
                        | Inr timeout \<Rightarrow>
                            let batch = \<lparr>BatchNonce = nonce, Timeout = timeout,
                                         Transactions = selectedStes,
                                         TokenContract = contractAddress,
                                         Height = BlockHeight e\<rparr>;
                                s3 = SetOutgoingTx (BatchTx batch) s2;
                                s4 = EmitEvent (EventOutgoingBatch (getBridgeContractAddress s3)
                                                  (getBridgeChainID s3) (BatchNonce batch)) s3
                            in Inr (Some batch, s4))"

definition CancelBatchTx :: "batch_tx \<Rightarrow> keeper_state \<Rightarrow> keeper_state" where
  "CancelBatchTx batch s =
     (let s1 = fold setUnbatchedSendToEthereum (Transactions batch) s;
          s2 = DeleteOutgoingTx (GetStoreIndex (BatchTx batch)) s1
      in EmitEvent (EventOutgoingBatchCanceled (getBridgeContractAddress s2)
                      (getBridgeChainID s2) (BatchNonce batch)) s2)"

text \<open>The callback of the scan in \<open>batchTxExecuted\<close>.\<close>

definition cancel_cb :: "batch_tx \<Rightarrow> outgoing_tx \<Rightarrow> keeper_state \<Rightarrow> error + keeper_state \<times> bool" where
  "cancel_cb batchTx otx s =
     (case otx of
        BatchTx btx \<Rightarrow>
          if BatchNonce btx < BatchNonce batchTx \<and> TokenContract btx = TokenContract batchTx
          then Inr (CancelBatchTx btx s, False)
          else Inr (s, False)
      | _ \<Rightarrow> Inl PanicNilDereference)"

text \<open>
  The burn loop of \<open>batchTxExecuted\<close>: \<open>None\<close> when the sanity check finds a transaction
  of another contract, and the total otherwise.
\<close>

fun burn_total :: "batch_tx \<Rightarrow> send_to_ethereum list \<Rightarrow> nat \<Rightarrow> nat option" where
  "burn_total batchTx [] totalToBurn = Some totalToBurn"
| "burn_total batchTx (tx # txs) totalToBurn =
     (if Contract (Erc20Token tx) \<noteq> TokenContract batchTx
         \<or> Contract (Erc20Fee tx) \<noteq> TokenContract batchTx
      then None
      else burn_total batchTx txs
             (totalToBurn + (Amount (Erc20Token tx) + Amount (Erc20Fee tx))))"

text \<open>
  \<open>batchTxExecuted\<close> returns a Go \<open>error\<close> and keeps what it has written so far:
  \<open>Inr (err, s')\<close> is a return with error value \<open>err\<close> (\<open>None\<close> for \<open>nil\<close>) in state \<open>s'\<close>,
  and \<open>Inl\<close> is a panic. The call to the bank keeper is recorded whether or not the bank
  accepts it.
\<close>

definition batchTxExecuted ::
  "env \<Rightarrow> address \<Rightarrow> u64 \<Rightarrow> keeper_state \<Rightarrow> error + error option \<times> keeper_state" where
  "batchTxExecuted e tokenContract nonce s =
     (case GetOutgoingTx s (MakeBatchTxKey tokenContract nonce) of
        None \<Rightarrow> Inr (None, s)
      | Some otx \<Rightarrow>
          (case otx of
             BatchTx batchTx \<Rightarrow>
               (case iterate_cb_err (cancel_cb batchTx)
                       (IterateOutgoingTxsByType s BatchTxPrefixByte) s of
                  Inl err \<Rightarrow> Inl err
                | Inr s1 \<Rightarrow>
                    (case ERC20ToDenomLookup e (TokenContract batchTx) of
                       (isCosmosOriginated, denom) \<Rightarrow>
                         if \<not> isCosmosOriginated then
                           (case burn_total batchTx (Transactions batchTx) 0 of
                              None \<Rightarrow> Inr (Some ErrInvalid, s1)
                            | Some totalToBurn \<Rightarrow>
                                let s2 = s1\<lparr>burn_calls := burn_calls s1 @ [(denom, totalToBurn)]\<rparr>
                                in if BurnCoinsSucceeds e denom totalToBurn
                                   then Inr (None, DeleteOutgoingTx (GetStoreIndex (BatchTx batchTx)) s2)
                                   else Inr (Some ErrBurnFailed, s2))
                         else Inr (None, DeleteOutgoingTx (GetStoreIndex (BatchTx batchTx)) s1)))
           | _ \<Rightarrow> Inl PanicNilDereference))"

section \<open>Signature index\<close>

definition getEthereumSignature :: "keeper_state \<Rightarrow> bytes \<Rightarrow> bytes \<Rightarrow> bytes option" where
  "getEthereumSignature s storeIndex validator =
     store_get (kv s) (MakeEthereumSignatureKey storeIndex validator)"

text \<open>
  \<open>SetEthereumSignature\<close> takes a confirmation; the model takes the two things it reads
  from it, the store index and the signature.
\<close>

definition SetEthereumSignature :: "bytes \<Rightarrow> bytes \<Rightarrow> bytes \<Rightarrow> keeper_state \<Rightarrow> keeper_state" where
  "SetEthereumSignature storeIndex signature val s =
     s\<lparr>kv := store_set (MakeEthereumSignatureKey storeIndex val) signature (kv s)\<rparr>"


text \<open>
  \<open>DeleteEthereumSignatures\<close> walks the keys under the signature prefix followed by the
  store index and deletes each of them.
\<close>

definition DeleteEthereumSignatures :: "outgoing_tx \<Rightarrow> keeper_state \<Rightarrow> keeper_state" where
  "DeleteEthereumSignatures otx s =
     s\<lparr>kv := fold (\<lambda>e. store_delete (fst e))
                (prefix_iterator (EthereumSignatureKey # GetStoreIndex otx) (kv s)) (kv s)\<rparr>"

section \<open>Signer-set nonce\<close>

definition GetLatestSignerSetTxNonce :: "keeper_state \<Rightarrow> u64" where
  "GetLatestSignerSetTxNonce s =
     (case latest_signer_set_tx_nonce s of None \<Rightarrow> 0 | Some v \<Rightarrow> v)"

definition incrementLatestSignerSetTxNonce :: "keeper_state \<Rightarrow> u64 \<times> keeper_state" where
  "incrementLatestSignerSetTxNonce s =
     (let current = GetLatestSignerSetTxNonce s;
          next = current + 1
      in (next, s\<lparr>latest_signer_set_tx_nonce := Some next\<rparr>))"

definition CreateSignerSetTx :: "env \<Rightarrow> keeper_state \<Rightarrow> error + signer_set_tx \<times> keeper_state" where
  "CreateSignerSetTx e s =
     (case incrementLatestSignerSetTxNonce s of
        (nonce, s1) \<Rightarrow>
          (case CurrentSignerSet e s1 of
             Inl err \<Rightarrow> Inl err
           | Inr currSignerSet \<Rightarrow>
               let newSignerSetTx = \<lparr>Nonce = nonce, SignerSetHeight = BlockHeight e,
                                     Signers = currSignerSet\<rparr>;
                   s2 = EmitEvent (EventMultisigUpdateRequest (getBridgeContractAddress s1)
                                     (getBridgeChainID s1) nonce) s1
               in Inr (newSignerSetTx, SetOutgoingTx (SignerSetTx newSignerSetTx) s2)))"

section \<open>Migration\<close>

text \<open>
  Modelled from the spec: the event-nonce setters, the enumeration of the event-vote
  records and the setter of the last observed signer set are not among the sources;
  section 4.7 says what the migration does with them.
\<close>

definition setLastObservedEventNonce :: "u64 \<Rightarrow> keeper_state \<Rightarrow> keeper_state" where
  "setLastObservedEventNonce n s = s\<lparr>last_observed_event_nonce := Some n\<rparr>"

definition setLastEventNonceByValidator :: "bytes \<Rightarrow> u64 \<Rightarrow> keeper_state \<Rightarrow> keeper_state" where
  "setLastEventNonceByValidator val n s =
     s\<lparr>last_event_nonce_by_validator :=
          (val, n) # filter (\<lambda>x. fst x \<noteq> val) (last_event_nonce_by_validator s)\<rparr>"

definition iterateEthereumEventVoteRecords ::
  "keeper_state \<Rightarrow> (bytes \<times> ethereum_event_vote_record) list" where
  "iterateEthereumEventVoteRecords s = sort_key fst (event_vote_records s)"

definition setLastObservedSignerSetTx :: "signer_set_tx \<Rightarrow> keeper_state \<Rightarrow> keeper_state" where
  "setLastObservedSignerSetTx signerSet s = s\<lparr>last_observed_signer_set := Some signerSet\<rparr>"

definition SetParams :: "params \<Rightarrow> keeper_state \<Rightarrow> keeper_state" where
  "SetParams ps s = s\<lparr>module_params := ps\<rparr>"

text \<open>The inner loop over the votes of one record; a vote that does not decode panics.\<close>

fun reset_votes :: "env \<Rightarrow> string list \<Rightarrow> keeper_state \<Rightarrow> error + keeper_state" where
  "reset_votes e [] s = Inr s"
| "reset_votes e (vote # votes) s =
     (case ValAddressFromBech32 e vote of
        None \<Rightarrow> Inl PanicBech32
      | Some val \<Rightarrow> reset_votes e votes (setLastEventNonceByValidator val 0 s))"

definition reset_cb ::
  "env \<Rightarrow> bytes \<times> ethereum_event_vote_record \<Rightarrow> keeper_state \<Rightarrow> error + keeper_state \<times> bool" where
  "reset_cb e voteRecord s =
     (case reset_votes e (Votes (snd voteRecord)) s of
        Inl err \<Rightarrow> Inl err
      | Inr s' \<Rightarrow> Inr (s', False))"

text \<open>The first loop of the migration: the signatures of an entry, then the entry.\<close>

definition sweep_outgoing :: "outgoing_tx \<Rightarrow> keeper_state \<Rightarrow> keeper_state" where
  "sweep_outgoing otx s = DeleteOutgoingTx (GetStoreIndex otx) (DeleteEthereumSignatures otx s)"

definition MigrateGravityContract :: "env \<Rightarrow> string \<Rightarrow> u64 \<Rightarrow> keeper_state \<Rightarrow> error + keeper_state" where
  "MigrateGravityContract e newBridgeAddress bridgeDeploymentHeight s =
     (let s1 = fold sweep_outgoing (iterateOutgoingTxs s) s;
          s2 = s1\<lparr>latest_signer_set_tx_nonce := Some 0\<rparr>;
          s3 = setLastObservedEventNonce 0 s2
      in case iterate_cb_err (reset_cb e) (iterateEthereumEventVoteRecords s3) s3 of
           Inl err \<Rightarrow> Inl err
         | Inr s4 \<Rightarrow>
             let s5 = s4\<lparr>event_vote_records := []\<rparr>;
                 height = \<lparr>EthereumHeight = bridgeDeploymentHeight - 1,
                           CosmosHeight = BlockHeight e\<rparr>;
                 s6 = s5\<lparr>last_ethereum_block_height := Some height\<rparr>;
                 s7 = setLastObservedSignerSetTx \<lparr>Nonce = 0, SignerSetHeight = 0, Signers = []\<rparr> s6;
                 s8 = s7\<lparr>last_outgoing_batch_nonce := Some 0\<rparr>;
                 params = module_params s8
             in Inr (SetParams (params\<lparr>BridgeEthereumAddress := newBridgeAddress\<rparr>) s8))"

section \<open>Sequences of calls\<close>

text \<open>
  The calls a block can make into the functions above, each in the context of its block.
  A call that panics or returns an error is undone by the host (section 5) and leaves the
  state as it was.
\<close>

datatype keeper_op =
  OpBuildBatchTx address int
| OpBatchTxExecuted address u64
| OpCancelBatchTx batch_tx
| OpSetUnbatchedSendToEthereum send_to_ethereum
| OpSetEthereumSignature bytes bytes bytes
| OpCreateSignerSetTx
| OpMigrateGravityContract string u64

fun apply_op :: "env \<Rightarrow> keeper_op \<Rightarrow> keeper_state \<Rightarrow> error + keeper_state" where
  "apply_op e (OpBuildBatchTx contractAddress maxElements) s =
     (case BuildBatchTx e contractAddress maxElements s of
        Inl err \<Rightarrow> Inl err
      | Inr (batch, s') \<Rightarrow> Inr s')"
| "apply_op e (OpBatchTxExecuted tokenContract nonce) s =
     (case batchTxExecuted e tokenContract nonce s of
        Inl err \<Rightarrow> Inl err
      | Inr (None, s') \<Rightarrow> Inr s'
      | Inr (Some err, s') \<Rightarrow> Inl err)"
| "apply_op e (OpCancelBatchTx batch) s = Inr (CancelBatchTx batch s)"
| "apply_op e (OpSetUnbatchedSendToEthereum ste) s = Inr (setUnbatchedSendToEthereum ste s)"
| "apply_op e (OpSetEthereumSignature storeIndex signature val) s =
     Inr (SetEthereumSignature storeIndex signature val s)"
| "apply_op e OpCreateSignerSetTx s =
     (case CreateSignerSetTx e s of
        Inl err \<Rightarrow> Inl err
      | Inr (tx, s') \<Rightarrow> Inr s')"
| "apply_op e (OpMigrateGravityContract newBridgeAddress bridgeDeploymentHeight) s =
     MigrateGravityContract e newBridgeAddress bridgeDeploymentHeight s"

fun run :: "(env \<times> keeper_op) list \<Rightarrow> keeper_state \<Rightarrow> keeper_state" where
  "run [] s = s"
| "run (c # calls) s =
     (case apply_op (fst c) (snd c) s of
        Inl err \<Rightarrow> run calls s
      | Inr s' \<Rightarrow> run calls s')"

fun is_migration :: "keeper_op \<Rightarrow> bool" where
  "is_migration (OpMigrateGravityContract newBridgeAddress bridgeDeploymentHeight) = True"
| "is_migration other = False"

definition batch_nonce_counter :: "keeper_state \<Rightarrow> u64" where
  "batch_nonce_counter s = (case last_outgoing_batch_nonce s of None \<Rightarrow> 0 | Some v \<Rightarrow> v)"

section \<open>Notions the properties are stated with\<close>

text \<open>
  The included signers of section 4.3: the bonded validators with a nonzero registered
  foreign address, in the staking keeper's order; the sum of their powers as a number,
  without wrap-around; and \<open>totalPower\<close> as the first loop of \<open>CurrentSignerSet\<close>
  computes it in a \<open>uint64\<close>.
\<close>

definition included_validators :: "env \<Rightarrow> keeper_state \<Rightarrow> bytes list" where
  "included_validators e s =
     filter (\<lambda>v. GetValidatorEthereumAddress s v \<noteq> 0) (GetBondedValidatorsByPower e)"

definition included_power :: "env \<Rightarrow> keeper_state \<Rightarrow> nat" where
  "included_power e s =
     sum_list (map (\<lambda>v. unat (GetLastValidatorPower e v)) (included_validators e s))"

definition totalPower :: "env \<Rightarrow> keeper_state \<Rightarrow> u64" where
  "totalPower e s = snd (collect_signers e s (GetBondedValidatorsByPower e) ([], 0))"

text \<open>
  The batches of the outgoing-tx store, newest first, and those a call of
  \<open>batchTxExecuted\<close> for the batch \<open>B\<close> cancels: same token contract, strictly lower
  nonce. \<open>after_cancel\<close> is the state once they are cancelled.
\<close>

fun batch_txs :: "outgoing_tx list \<Rightarrow> batch_tx list" where
  "batch_txs [] = []"
| "batch_txs (BatchTx b # otxs) = b # batch_txs otxs"
| "batch_txs (otx # otxs) = batch_txs otxs"

definition cancelled_batches :: "keeper_state \<Rightarrow> batch_tx \<Rightarrow> batch_tx list" where
  "cancelled_batches s B =
     filter (\<lambda>b. BatchNonce b < BatchNonce B \<and> TokenContract b = TokenContract B)
       (batch_txs (iterateOutgoingTxs s))"

definition after_cancel :: "keeper_state \<Rightarrow> batch_tx \<Rightarrow> keeper_state" where
  "after_cancel s B = fold CancelBatchTx (cancelled_batches s B) s"

text \<open>
  Writing one entry into the pool, as \<open>setUnbatchedSendToEthereum\<close> does to the pool of
  the state, and removing a list of entries from it by their keys.
\<close>

definition reinsert :: "send_to_ethereum \<Rightarrow> send_to_ethereum list \<Rightarrow> send_to_ethereum list" where
  "reinsert ste pool = ste # filter (\<lambda>x. pool_key x \<noteq> pool_key ste) pool"

definition delete_selected :: "send_to_ethereum list \<Rightarrow> keeper_state \<Rightarrow> keeper_state" where
  "delete_selected W s = s\<lparr>unbatched := filter (\<lambda>x. pool_key x \<notin> pool_key ` set W) (unbatched s)\<rparr>"

text \<open>
  The fee sum of a list of pool entries, and the entries a call of \<open>BuildBatchTx\<close> with
  \<open>maxElements\<close> looks at: the first \<open>maxElements\<close> of the contract, highest fee first,
  and all of them when \<open>maxElements\<close> is negative.
\<close>

definition fee_sum :: "send_to_ethereum list \<Rightarrow> nat" where
  "fee_sum txs = sum_list (map (\<lambda>tx. Amount (Erc20Fee tx)) txs)"

definition first_unbatched :: "keeper_state \<Rightarrow> address \<Rightarrow> int \<Rightarrow> send_to_ethereum list" where
  "first_unbatched s c maxElements =
     (if maxElements < 0 then iterateUnbatchedSendToEthereumsByContract s c
      else take (nat maxElements) (iterateUnbatchedSendToEthereumsByContract s c))"

text \<open>
The events of a cancelled and of a built batch.
\<close>

definition cancel_event :: "keeper_state \<Rightarrow> batch_tx \<Rightarrow> event" where
  "cancel_event s b =
     EventOutgoingBatchCanceled (getBridgeContractAddress s) (getBridgeChainID s) (BatchNonce b)"

definition build_event :: "keeper_state \<Rightarrow> u64 \<Rightarrow> event" where
  "build_event s nonce = EventOutgoingBatch (getBridgeContractAddress s) (getBridgeChainID s) nonce"

section \<open>Example states\<close>

text \<open>
  Concrete stores and collaborators on which the properties below are run: an empty
  store; a directory with three validators registered under the foreign addresses 10,
  20 and 30 and one under the zero address; staking keepers that report the powers
  100, 50, 50 of scenario S5, the power zero, and the largest \<open>int64\<close> for everyone; and
  a directory holding the delegate keys of one validator.
\<close>

definition empty_state :: keeper_state where
  "empty_state = \<lparr>kv = [], outgoing = [], unbatched = [], last_outgoing_batch_nonce = None,
     latest_signer_set_tx_nonce = None, last_ethereum_block_height = None,
     last_observed_signer_set = None, last_observed_event_nonce = None,
     last_event_nonce_by_validator = [], event_vote_records = [],
     module_params = \<lparr>BridgeEthereumAddress = ''0xbridge'', BridgeChainID = 1,
       AverageBlockTime = 5000, AverageEthereumBlockTime = 15000,
       TargetEthTxTimeout = 43200000, BridgeActive = True\<rparr>,
     events = [], burn_calls = []\<rparr>"

definition signers_state :: keeper_state where
  "signers_state =
     setValidatorEthereumAddress [4] 0
       (setValidatorEthereumAddress [3] 30
         (setValidatorEthereumAddress [2] 20
           (setValidatorEthereumAddress [1] 10 empty_state)))"

definition signers_env :: env where
  "signers_env = \<lparr>BlockHeight = 100,
     GetBondedValidatorsByPower = [[1], [2], [3], [4], [5]],
     GetLastValidatorPower = (\<lambda>v. if v = [1] then 100 else 50),
     ERC20ToDenomLookup = (\<lambda>a. (False, ''gravity'')),
     BurnCoinsSucceeds = (\<lambda>d a. True),
     ValAddressFromBech32 = (\<lambda>v. None)\<rparr>"

definition zero_power_env :: env where
  "zero_power_env = \<lparr>BlockHeight = 100,
     GetBondedValidatorsByPower = [[1], [2], [3], [4], [5]],
     GetLastValidatorPower = (\<lambda>v. 0),
     ERC20ToDenomLookup = (\<lambda>a. (False, ''gravity'')),
     BurnCoinsSucceeds = (\<lambda>d a. True),
     ValAddressFromBech32 = (\<lambda>v. None)\<rparr>"

definition wrapping_env :: env where
  "wrapping_env = \<lparr>BlockHeight = 100,
     GetBondedValidatorsByPower = [[1], [2], [3], [4], [5]],
     GetLastValidatorPower = (\<lambda>v. 9223372036854775807),
     ERC20ToDenomLookup = (\<lambda>a. (False, ''gravity'')),
     BurnCoinsSucceeds = (\<lambda>d a. True),
     ValAddressFromBech32 = (\<lambda>v. None)\<rparr>"

definition delegate_state :: keeper_state where
  "delegate_state =
     setEthereumOrchestratorAddress 5 (AddressBytes 9)
       (setValidatorEthereumAddress (AddressBytes 7) 5
         (SetOrchestratorValidatorAddress (AddressBytes 7) (AddressBytes 9) empty_state))"

text \<open>
  Transfers of the token contract 1, one transfer whose amount names another contract,
  and batches made of them with the nonces 0 to 3.
\<close>

definition ste_a :: send_to_ethereum where
  "ste_a = \<lparr>Id = 1, Sender = ''alice'', EthereumRecipient = 77,
     Erc20Token = \<lparr>Contract = 1, Amount = 100\<rparr>, Erc20Fee = \<lparr>Contract = 1, Amount = 5\<rparr>\<rparr>"

definition ste_b :: send_to_ethereum where
  "ste_b = \<lparr>Id = 2, Sender = ''bob'', EthereumRecipient = 78,
     Erc20Token = \<lparr>Contract = 1, Amount = 100\<rparr>, Erc20Fee = \<lparr>Contract = 1, Amount = 2\<rparr>\<rparr>"


definition ste_fee :: "u64 \<Rightarrow> nat \<Rightarrow> send_to_ethereum" where
  "ste_fee txId fee = \<lparr>Id = txId, Sender = ''dave'', EthereumRecipient = 80,
     Erc20Token = \<lparr>Contract = 1, Amount = 50\<rparr>, Erc20Fee = \<lparr>Contract = 1, Amount = fee\<rparr>\<rparr>"

definition batch_0 :: batch_tx where
  "batch_0 = \<lparr>BatchNonce = 0, Timeout = 0, Transactions = [ste_a], TokenContract = 1, Height = 80\<rparr>"

definition batch_1 :: batch_tx where
  "batch_1 = \<lparr>BatchNonce = 1, Timeout = 0, Transactions = [ste_a], TokenContract = 1, Height = 90\<rparr>"

definition batch_2 :: batch_tx where
  "batch_2 = \<lparr>BatchNonce = 2, Timeout = 0, Transactions = [ste_b], TokenContract = 1, Height = 95\<rparr>"


text \<open>
  Stores holding these batches, the pool of scenario S1 with the fees 3, 1 and 2, and
  collaborators for a foreign-originated token, for a bank that refuses to burn and for
  a home-originated token.
\<close>

definition two_batches_state :: keeper_state where
  "two_batches_state =
     SetOutgoingTx (BatchTx batch_2)
       (SetOutgoingTx (BatchTx batch_1) (empty_state\<lparr>last_outgoing_batch_nonce := Some 2\<rparr>))"


definition zero_nonce_state :: keeper_state where
  "zero_nonce_state = SetOutgoingTx (BatchTx batch_0) (setUnbatchedSendToEthereum ste_b empty_state)"

definition pool_state :: keeper_state where
  "pool_state =
     setUnbatchedSendToEthereum (ste_fee 3 2)
       (setUnbatchedSendToEthereum (ste_fee 2 1)
         (setUnbatchedSendToEthereum (ste_fee 1 3) empty_state))"

definition burn_env :: env where
  "burn_env = \<lparr>BlockHeight = 100,
     GetBondedValidatorsByPower = [],
     GetLastValidatorPower = (\<lambda>v. 0),
     ERC20ToDenomLookup = (\<lambda>a. (False, ''gravity0x01'')),
     BurnCoinsSucceeds = (\<lambda>d a. True),
     ValAddressFromBech32 = (\<lambda>v. if v = ''val7'' then Some [7] else None)\<rparr>"

definition failing_bank_env :: env where
  "failing_bank_env = burn_env\<lparr>BurnCoinsSucceeds := (\<lambda>d a. False)\<rparr>"





text \<open>
The states and batches the example calls are expected to produce.
\<close>

definition executed_state :: keeper_state where
  "executed_state = empty_state\<lparr>unbatched := [ste_a], last_outgoing_batch_nonce := Some 2,
     events := [EventOutgoingBatchCanceled ''0xbridge'' 1 1],
     burn_calls := [(''gravity0x01'', 102)]\<rparr>"

definition burn_failed_state :: keeper_state where
  "burn_failed_state = executed_state\<lparr>outgoing := [BatchTx batch_2]\<rparr>"

definition s1_batch :: batch_tx where
  "s1_batch = \<lparr>BatchNonce = 1, Timeout = 0, Transactions = [ste_fee 1 3, ste_fee 3 2],
     TokenContract = 1, Height = 100\<rparr>"

definition s1_state :: keeper_state where
  "s1_state = empty_state\<lparr>outgoing := [BatchTx s1_batch], unbatched := [ste_fee 2 1],
     last_outgoing_batch_nonce := Some 1, events := [EventOutgoingBatch ''0xbridge'' 1 1]\<rparr>"

definition drained_batch :: batch_tx where
  "drained_batch = \<lparr>BatchNonce = 1, Timeout = 0,
     Transactions = [ste_fee 1 3, ste_fee 3 2, ste_fee 2 1], TokenContract = 1, Height = 100\<rparr>"

definition drained_state :: keeper_state where
  "drained_state = empty_state\<lparr>outgoing := [BatchTx drained_batch],
     last_outgoing_batch_nonce := Some 1, events := [EventOutgoingBatch ''0xbridge'' 1 1]\<rparr>"

definition zero_next_batch :: batch_tx where
  "zero_next_batch = \<lparr>BatchNonce = 1, Timeout = 0, Transactions = [ste_b],
     TokenContract = 1, Height = 100\<rparr>"

definition zero_next_state :: keeper_state where
  "zero_next_state = empty_state\<lparr>outgoing := [BatchTx zero_next_batch, BatchTx batch_0],
     last_outgoing_batch_nonce := Some 1, events := [EventOutgoingBatch ''0xbridge'' 1 1]\<rparr>"

definition migrated_state :: keeper_state where
  "migrated_state = empty_state\<lparr>last_outgoing_batch_nonce := Some 0,
     latest_signer_set_tx_nonce := Some 0,
     last_ethereum_block_height := Some \<lparr>EthereumHeight = 499, CosmosHeight = 100\<rparr>,
     last_observed_signer_set := Some \<lparr>Nonce = 0, SignerSetHeight = 0, Signers = []\<rparr>,
     last_observed_event_nonce := Some 0,
     module_params := (module_params empty_state)\<lparr>BridgeEthereumAddress := ''0xnew''\<rparr>\<rparr>"



definition remigrated_state :: keeper_state where
  "remigrated_state = migrated_state\<lparr>unbatched := [ste_fee 2 1],
     events := [EventOutgoingBatch ''0xbridge'' 1 1]\<rparr>"

definition rebuilt_batch :: batch_tx where
  "rebuilt_batch = \<lparr>BatchNonce = 1, Timeout = 3379, Transactions = [ste_fee 2 1],
     TokenContract = 1, Height = 100\<rparr>"

definition rebuilt_state :: keeper_state where
  "rebuilt_state = migrated_state\<lparr>outgoing := [BatchTx rebuilt_batch],
     last_outgoing_batch_nonce := Some 1,
     events := [EventOutgoingBatch ''0xbridge'' 1 1, EventOutgoingBatch ''0xnew'' 1 1]\<rparr>"

definition next_calls :: "(env \<times> keeper_op) list" where
  "next_calls = [(burn_env, OpSetUnbatchedSendToEthereum (ste_fee 4 10))]"

definition s2_batch :: batch_tx where
  "s2_batch = \<lparr>BatchNonce = 2, Timeout = 0, Transactions = [ste_fee 4 10, ste_fee 2 1],
     TokenContract = 1, Height = 100\<rparr>"

definition s2_state :: keeper_state where
  "s2_state = empty_state\<lparr>outgoing := [BatchTx s2_batch, BatchTx s1_batch], 
     last_outgoing_batch_nonce := Some 2,
     events := [EventOutgoingBatch ''0xbridge'' 1 1, EventOutgoingBatch ''0xbridge'' 1 2]\<rparr>"

section \<open>Byte encodings\<close>

lemma length_be_bytes [simp]: "length (be_bytes n w) = n"
  by (induction n) simp_all

lemma byte_radix_power: "(256::'a::len word) ^ n = 2 ^ (8 * n)"
  by (simp add: power_mult)

lemma word_of_int_byte_shift:
  "(word_of_int (h + 256 ^ n * uint (x::byte)) :: 'a::len word) = push_bit (8 * n) (ucast x) + word_of_int h"
  unfolding push_bit_eq_mult ucast_eq byte_radix_power [symmetric]
  by simp

lemma word_rcat_Cons:
  "(word_rcat (x # xs :: byte list) :: 'a::len word) = push_bit (8 * length xs) (ucast x) + word_rcat xs"
proof -
  have "(word_rcat (x # xs) :: 'a word) = word_of_int (horner_sum uint 256 (rev xs) + 256 ^ length xs * uint x)"
    by (simp add: word_rcat_def horner_sum_append)
  also have "\<dots> = push_bit (8 * length xs) (ucast x) + word_of_int (horner_sum uint 256 (rev xs))"
    by (rule word_of_int_byte_shift)
  finally show ?thesis
    by (simp add: word_rcat_def)
qed

lemma take_bit_Suc_bytes:
  "take_bit (8 * Suc n) (w :: 'a::len word) = push_bit (8 * n) (take_bit 8 (drop_bit (8 * n) w)) + take_bit (8 * n) w"
proof -
  have "push_bit (8 * n) (drop_bit (8 * n) (take_bit (8 * Suc n) w)) + take_bit (8 * n) (take_bit (8 * Suc n) w)
        = take_bit (8 * Suc n) w"
    by (rule bits_ident)
  moreover have "drop_bit (8 * n) (take_bit (8 * Suc n) w) = take_bit 8 (drop_bit (8 * n) w)"
    by (simp add: drop_bit_take_bit)
  moreover have "take_bit (8 * n) (take_bit (8 * Suc n) w) = take_bit (8 * n) w"
    by (simp add: min_def)
  ultimately show ?thesis by metis
qed

lemma ucast_byte_ucast:
  "(ucast (ucast (v :: 'a::len word) :: byte) :: 'a word) = take_bit 8 v"
  by (rule bit_eqI) (auto simp: bit_simps)

lemma word_rcat_be_bytes:
  "(word_rcat (be_bytes n w) :: 'a::len word) = take_bit (8 * n) (w :: 'a word)"
proof (induction n)
  case 0
  then show ?case by (simp add: word_rcat_def)
next
  case (Suc n)
  have "(word_rcat (be_bytes (Suc n) w) :: 'a word)
        = push_bit (8 * n) (take_bit 8 (drop_bit (8 * n) w)) + take_bit (8 * n) w"
    using Suc by (simp only: be_bytes.simps word_rcat_Cons length_be_bytes ucast_byte_ucast)
  then show ?case
    by (simp only: take_bit_Suc_bytes)
qed

lemma be_bytes_inj:
  assumes "be_bytes n (v :: 'a::len word) = be_bytes n w" and "LENGTH('a) \<le> 8 * n"
  shows "v = w"
proof -
  have "(word_rcat (be_bytes n v) :: 'a word) = word_rcat (be_bytes n w)"
    using assms(1) by simp
  then have "take_bit (8 * n) v = take_bit (8 * n) w"
    by (simp only: word_rcat_be_bytes)
  with assms(2) show ?thesis
    by (simp add: take_bit_word_eq_self)
qed

lemma length_AddressBytes [simp]: "length (AddressBytes a) = 20"
  by (simp add: AddressBytes_def)

lemma length_Uint64ToBigEndian [simp]: "length (Uint64ToBigEndian n) = 8"
  by (simp add: Uint64ToBigEndian_def)

lemma AddressBytes_inj: "AddressBytes a = AddressBytes b \<Longrightarrow> a = b"
  using be_bytes_inj [of 20 a b] by (simp add: AddressBytes_def)

lemma Uint64ToBigEndian_inj: "Uint64ToBigEndian a = Uint64ToBigEndian b \<Longrightarrow> a = b"
  using be_bytes_inj [of 8 a b] by (simp add: Uint64ToBigEndian_def)

lemma BytesToAddress_AddressBytes [simp]: "BytesToAddress (AddressBytes a) = a"
  by (simp add: BytesToAddress_def AddressBytes_def word_rcat_be_bytes take_bit_word_eq_self)

lemma BytesToAddress_Nil [simp]: "BytesToAddress [] = 0"
  by (simp add: BytesToAddress_def word_rcat_def)

section \<open>Store lookups\<close>

lemma map_of_filter_key:
  "map_of (filter (\<lambda>e. fst e \<noteq> k) st) k' = (if k' = k then None else map_of st k')"
  by (induction st) auto

lemma store_get_set: "store_get (store_set k v st) k' = (if k' = k then Some v else store_get st k')"
  by (simp add: store_get_def store_set_def map_of_filter_key)

lemma store_get_delete: "store_get (store_delete k st) k' = (if k' = k then None else store_get st k')"
  by (simp add: store_get_def store_delete_def map_of_filter_key)

lemma GetValidatorEthereumAddress_set:
  "GetValidatorEthereumAddress (setValidatorEthereumAddress v a s) v' =
     (if v' = v then a else GetValidatorEthereumAddress s v')"
  by (simp add: GetValidatorEthereumAddress_def setValidatorEthereumAddress_def store_get_set
      MakeValidatorEthereumAddressKey_def)

lemma GetValidatorEthereumAddress_empty: "GetValidatorEthereumAddress empty_state v = 0"
  by (simp add: GetValidatorEthereumAddress_def empty_state_def store_get_def)

lemma set_prefix_iterator:
  "set (prefix_iterator p st) = {e \<in> set st. prefix p (fst e)}"
  by (auto simp: prefix_iterator_def store_iterator_def)

lemma fold_store_delete:
  "fold (\<lambda>e. store_delete (fst e)) es st = filter (\<lambda>e. fst e \<notin> fst ` set es) st"
proof (induction es arbitrary: st)
  case Nil
  then show ?case by simp
next
  case (Cons a es)
  show ?case
    by (simp add: Cons.IH) (auto simp: store_delete_def intro: filter_cong)
qed

section \<open>Signer set: properties\<close>

lemma collect_signers_eq:
  "collect_signers e s vals (sg, t) =
     (sg @ map (\<lambda>v. \<lparr>Power = GetLastValidatorPower e v, EthereumAddress = GetValidatorEthereumAddress s v\<rparr>)
            (filter (\<lambda>v. GetValidatorEthereumAddress s v \<noteq> 0) vals),
      t + sum_list (map (GetLastValidatorPower e) (filter (\<lambda>v. GetValidatorEthereumAddress s v \<noteq> 0) vals)))"
  by (induction vals arbitrary: sg t) (simp_all add: Let_def add.assoc)

lemma unat_sum_list_no_wrap:
  "sum_list (map (\<lambda>v. unat (f v)) xs) < 2 ^ 64 \<Longrightarrow>
   unat (sum_list (map f xs) :: u64) = sum_list (map (\<lambda>v. unat (f v)) xs)"
proof (induction xs)
  case Nil
  then show ?case by simp
next
  case (Cons x xs)
  then have "unat (sum_list (map f xs)) = sum_list (map (\<lambda>v. unat (f v)) xs)" by simp
  moreover from Cons.prems have "unat (f x) + sum_list (map (\<lambda>v. unat (f v)) xs) < 2 ^ LENGTH(64)" by simp
  ultimately show ?case
    by (simp add: unat_add_lem [THEN iffD1])
qed

lemma floor_sum_upper:
  "sum_list (map (\<lambda>p. p * M div T) ps) * T \<le> sum_list ps * (M::nat)"
proof (induction ps)
  case Nil
  then show ?case by simp
next
  case (Cons p ps)
  have "(p * M div T) * T \<le> p * M" by simp
  with Cons show ?case by (simp add: add_mult_distrib add_mono)
qed

lemma floor_sum_lower:
  "0 < T \<Longrightarrow> sum_list ps * (M::nat) + length ps \<le> (sum_list (map (\<lambda>p. p * M div T) ps) + length ps) * T"
proof (induction ps)
  case Nil
  then show ?case by simp
next
  case (Cons p ps)
  have "p * M < (p * M div T + 1) * T"
    using Cons.prems by (metis Suc_eq_plus1 dividend_less_div_times mult.commute mult_Suc)
  then have "p * M + 1 \<le> (p * M div T + 1) * T" by simp
  with Cons show ?case by (simp add: add_mult_distrib)
qed

lemma normalize_signers_ok:
  assumes "t \<noteq> 0" and "\<forall>es \<in> set sg. unat (Power es) \<le> unat t"
  shows "normalize_signers t sg =
           Inr (map (\<lambda>es. es\<lparr>Power := word_of_nat (unat (Power es) * MaxUint32 div unat t)\<rparr>) sg)"
  using assms(2)
proof (induction sg)
  case Nil
  then show ?case by simp
next
  case (Cons es sg)
  have pos: "0 < unat t" using assms(1) by (simp add: unat_gt_0)
  have "unat (Power es) * MaxUint32 \<le> unat t * MaxUint32"
    using Cons.prems by simp
  then have "unat (Power es) * MaxUint32 div unat t \<le> MaxUint32"
    using pos by (metis div_le_mono nonzero_mult_div_cancel_left less_numeral_extra(3))
  then have "unat (Power es) * MaxUint32 div unat t < 2 ^ 64"
    by (simp add: MaxUint32_def)
  with Cons assms(1) show ?case
    by (simp add: normalize_power_def)
qed

lemma normalized_power_unat:
  assumes "0 < T" and "p \<le> T"
  shows "unat (word_of_nat (p * MaxUint32 div T) :: u64) = p * MaxUint32 div T"
proof -
  have "p * MaxUint32 \<le> T * MaxUint32" using assms(2) by simp
  then have "p * MaxUint32 div T \<le> MaxUint32"
    using assms(1) by (metis div_le_mono nonzero_mult_div_cancel_left less_numeral_extra(3))
  then have "p * MaxUint32 div T < 2 ^ LENGTH(64)"
    by (simp add: MaxUint32_def)
  then show ?thesis
    by (simp add: unat_of_nat take_bit_nat_eq_self)
qed

text \<open>
  Claim C1, as amended. When the powers of the included signers add up to a positive
  number below \<open>2^64\<close>, so that the \<open>uint64\<close> accumulator holds their sum,
  \<open>CurrentSignerSet\<close> returns one signer per included validator, each with the power
  \<open>floor(p * (2^32 - 1) / totalPower)\<close> taken on unbounded integers; the normalized
  powers add up to at most \<open>2^32 - 1\<close>, and \<open>2^32 - 1\<close> minus their sum is below the
  number of signers.
\<close>

theorem CurrentSignerSet_normalized:
  assumes "0 < included_power e s" and "included_power e s < 2 ^ 64"
  shows "\<exists>signers. CurrentSignerSet e s = Inr signers
     \<and> map EthereumAddress signers = map (GetValidatorEthereumAddress s) (included_validators e s)
     \<and> map (\<lambda>x. unat (Power x)) signers =
         map (\<lambda>v. unat (GetLastValidatorPower e v) * MaxUint32 div included_power e s)
           (included_validators e s)
     \<and> sum_list (map (\<lambda>x. unat (Power x)) signers) \<le> MaxUint32
     \<and> MaxUint32 - sum_list (map (\<lambda>x. unat (Power x)) signers) < length signers"
proof -
  define inc where "inc = included_validators e s"
  define T where "T = included_power e s"
  define t where "t = (sum_list (map (GetLastValidatorPower e) inc) :: u64)"
  define ps where "ps = map (\<lambda>v. unat (GetLastValidatorPower e v)) inc"
  define sg where "sg = map (\<lambda>v. \<lparr>Power = GetLastValidatorPower e v,
                                   EthereumAddress = GetValidatorEthereumAddress s v\<rparr>) inc"
  define res where "res = map (\<lambda>es. es\<lparr>Power := word_of_nat (unat (Power es) * MaxUint32 div unat t)\<rparr>) sg"
  have T_sum: "T = sum_list ps"
    by (simp add: T_def ps_def included_power_def inc_def)
  have unat_t: "unat t = T"
    using assms(2) unfolding t_def T_def included_power_def inc_def
    by (rule unat_sum_list_no_wrap)
  have T_pos: "0 < T" using assms(1) by (simp add: T_def)
  have t_nz: "t \<noteq> 0" using unat_t T_pos by auto
  have le_T: "p \<le> T" if "p \<in> set ps" for p
    using that T_sum member_le_sum_list by auto
  have sg_le: "\<forall>es \<in> set sg. unat (Power es) \<le> unat t"
    using le_T by (auto simp: sg_def ps_def unat_t)
  have collect: "collect_signers e s (GetBondedValidatorsByPower e) ([], 0) = (sg, t)"
    by (simp add: collect_signers_eq sg_def t_def inc_def included_validators_def)
  have run: "CurrentSignerSet e s = Inr res"
    using normalize_signers_ok [OF t_nz sg_le] by (simp add: CurrentSignerSet_def collect res_def)
  have addrs: "map EthereumAddress res = map (GetValidatorEthereumAddress s) inc"
    by (simp add: res_def sg_def comp_def)
  have powers: "map (\<lambda>x. unat (Power x)) res = map (\<lambda>p. p * MaxUint32 div T) ps"
    using le_T T_pos by (simp add: res_def sg_def ps_def comp_def unat_t normalized_power_unat)
  have len: "length res = length ps"
    by (simp add: res_def sg_def ps_def)
  have "sum_list (map (\<lambda>p. p * MaxUint32 div T) ps) * T \<le> T * MaxUint32"
    using floor_sum_upper [of MaxUint32 T ps] by (simp add: T_sum)
  then have upper: "sum_list (map (\<lambda>p. p * MaxUint32 div T) ps) \<le> MaxUint32"
    using T_pos by (simp add: mult.commute)
  have ne: "0 < length ps" using T_pos T_sum by (cases ps) auto
  have "T * MaxUint32 + length ps \<le> (sum_list (map (\<lambda>p. p * MaxUint32 div T) ps) + length ps) * T"
    using floor_sum_lower [OF T_pos, of ps MaxUint32] by (simp add: T_sum)
  then have "T * MaxUint32 < (sum_list (map (\<lambda>p. p * MaxUint32 div T) ps) + length ps) * T"
    using ne by linarith
  then have lower: "MaxUint32 < sum_list (map (\<lambda>p. p * MaxUint32 div T) ps) + length ps"
    using T_pos by (simp add: mult.commute)
  have "map (\<lambda>x. unat (Power x)) res =
          map (\<lambda>v. unat (GetLastValidatorPower e v) * MaxUint32 div included_power e s)
            (included_validators e s)"
    using powers by (simp add: ps_def T_def inc_def comp_def)
  moreover have "MaxUint32 - sum_list (map (\<lambda>x. unat (Power x)) res) < length res"
    using lower upper by (simp add: powers len)
  ultimately show ?thesis
    using run addrs upper by (auto simp: powers inc_def)
qed

text \<open>
  The powers 100, 50, 50 of scenario S5 are normalized to 2147483647, 1073741823 and
  1073741823.
\<close>

theorem CurrentSignerSet_normalized_witness:
  "0 < included_power signers_env signers_state \<and> included_power signers_env signers_state < 2 ^ 64
   \<and> (\<exists>signers. CurrentSignerSet signers_env signers_state = Inr signers
     \<and> map (\<lambda>x. unat (Power x)) signers = [2147483647, 1073741823, 1073741823]
     \<and> sum_list (map (\<lambda>x. unat (Power x)) signers) \<le> MaxUint32
     \<and> MaxUint32 - sum_list (map (\<lambda>x. unat (Power x)) signers) < length signers)"
proof -
  have inc: "included_validators signers_env signers_state = [[1], [2], [3]]"
    by (simp add: included_validators_def signers_env_def signers_state_def
        GetValidatorEthereumAddress_set GetValidatorEthereumAddress_empty)
  have pw: "included_power signers_env signers_state = 200"
    by (simp add: included_power_def inc) (simp add: signers_env_def)
  have h1: "0 < included_power signers_env signers_state" and h2: "included_power signers_env signers_state < 2 ^ 64"
    by (simp_all add: pw)
  from CurrentSignerSet_normalized [OF h1 h2] obtain signers where
    "CurrentSignerSet signers_env signers_state = Inr signers"
    "map (\<lambda>x. unat (Power x)) signers =
       map (\<lambda>v. unat (GetLastValidatorPower signers_env v) * MaxUint32 div included_power signers_env signers_state)
         (included_validators signers_env signers_state)"
    "sum_list (map (\<lambda>x. unat (Power x)) signers) \<le> MaxUint32"
    "MaxUint32 - sum_list (map (\<lambda>x. unat (Power x)) signers) < length signers"
    by blast
  moreover have "map (\<lambda>v. unat (GetLastValidatorPower signers_env v) * MaxUint32 div included_power signers_env signers_state)
         (included_validators signers_env signers_state) = [2147483647, 1073741823, 1073741823]"
    by (simp add: inc pw) (simp add: signers_env_def MaxUint32_def)
  ultimately show ?thesis using h1 h2 by auto
qed

text \<open>
  Without the bound the claim fails: three signers of power \<open>2^63 - 1\<close> make the
  accumulator wrap to \<open>2^63 - 3\<close>; each is normalized to \<open>2^32 - 1\<close>, and the sum is
  three times the bound.
\<close>

theorem CurrentSignerSet_wrapping_counterexample:
  "totalPower wrapping_env signers_state = 9223372036854775805
   \<and> CurrentSignerSet wrapping_env signers_state =
       Inr [\<lparr>Power = 4294967295, EthereumAddress = 10\<rparr>, \<lparr>Power = 4294967295, EthereumAddress = 20\<rparr>,
            \<lparr>Power = 4294967295, EthereumAddress = 30\<rparr>]
   \<and> \<not> sum_list (map (\<lambda>x. unat (Power x))
          [\<lparr>Power = 4294967295, EthereumAddress = 10\<rparr>, \<lparr>Power = 4294967295, EthereumAddress = 20\<rparr>,
            \<lparr>Power = 4294967295, EthereumAddress = 30\<rparr>]) \<le> MaxUint32"
  by (simp add: totalPower_def CurrentSignerSet_def wrapping_env_def signers_state_def
      GetValidatorEthereumAddress_set GetValidatorEthereumAddress_empty normalize_power_def MaxUint32_def)

lemma normalize_signers_zero:
  "sg \<noteq> [] \<Longrightarrow> normalize_signers 0 sg = Inl PanicDivisionByZero"
  by (cases sg) (simp_all add: normalize_power_def)

lemma normalize_signers_addresses:
  "normalize_signers t sg = Inr res \<Longrightarrow> map EthereumAddress res = map EthereumAddress sg"
  by (induction sg arbitrary: res) (auto split: sum.splits)

text \<open>
  Claim C7, as amended. \<open>CurrentSignerSet\<close> has no test of \<open>totalPower\<close>. With no
  included signer the total is zero, the normalizing loop has nothing to walk and the
  result is the empty list; with included signers of total power zero the division by
  zero is reached and the call panics. Whenever the call returns, the signers are the
  bonded validators with a nonzero registered foreign address, in order, so a validator
  registered under the zero address is never among them.
\<close>

theorem CurrentSignerSet_empty_or_panic:
  "(included_validators e s = [] \<longrightarrow> totalPower e s = 0 \<and> CurrentSignerSet e s = Inr [])
   \<and> (included_validators e s \<noteq> [] \<and> totalPower e s = 0 \<longrightarrow>
        CurrentSignerSet e s = Inl PanicDivisionByZero)
   \<and> (\<forall>signers. CurrentSignerSet e s = Inr signers \<longrightarrow>
        map EthereumAddress signers = map (GetValidatorEthereumAddress s) (included_validators e s)
        \<and> 0 \<notin> set (map EthereumAddress signers))"
proof -
  define inc where "inc = included_validators e s"
  define sg where "sg = map (\<lambda>v. \<lparr>Power = GetLastValidatorPower e v,
                                   EthereumAddress = GetValidatorEthereumAddress s v\<rparr>) inc"
  have collect: "collect_signers e s (GetBondedValidatorsByPower e) ([], 0) = (sg, totalPower e s)"
    by (simp add: collect_signers_eq sg_def totalPower_def inc_def included_validators_def)
  have run: "CurrentSignerSet e s = normalize_signers (totalPower e s) sg"
    by (simp add: CurrentSignerSet_def collect)
  have tp: "totalPower e s = sum_list (map (GetLastValidatorPower e) inc)"
    by (simp add: totalPower_def collect_signers_eq inc_def included_validators_def)
  have a: "totalPower e s = 0 \<and> CurrentSignerSet e s = Inr []" if "inc = []"
    using that by (simp add: run sg_def tp)
  have b: "CurrentSignerSet e s = Inl PanicDivisionByZero" if "inc \<noteq> []" "totalPower e s = 0"
    using that by (simp add: run sg_def normalize_signers_zero)
  have c: "map EthereumAddress signers = map (GetValidatorEthereumAddress s) inc
           \<and> 0 \<notin> set (map EthereumAddress signers)"
    if "CurrentSignerSet e s = Inr signers" for signers
  proof -
    have "map EthereumAddress signers = map EthereumAddress sg"
      using that normalize_signers_addresses by (simp add: run)
    then have eq: "map EthereumAddress signers = map (GetValidatorEthereumAddress s) inc"
      by (simp add: sg_def comp_def)
    have "0 \<notin> set (map (GetValidatorEthereumAddress s) inc)"
      by (auto simp: inc_def included_validators_def)
    with eq show ?thesis by simp
  qed
  from a b c show ?thesis unfolding inc_def by blast
qed

text \<open>
  Three validators with registered foreign addresses and power zero: the total power
  is zero, and the call panics rather than return the empty list.
\<close>

theorem CurrentSignerSet_zero_power_counterexample:
  "included_validators zero_power_env signers_state = [[1], [2], [3]]
   \<and> totalPower zero_power_env signers_state = 0
   \<and> CurrentSignerSet zero_power_env signers_state = Inl PanicDivisionByZero
   \<and> CurrentSignerSet zero_power_env signers_state \<noteq> Inr []"
  by (simp add: included_validators_def totalPower_def CurrentSignerSet_def zero_power_env_def
      signers_state_def GetValidatorEthereumAddress_set GetValidatorEthereumAddress_empty
      normalize_power_def)

text \<open>
  The three cases on the example states: no registered address, registered addresses
  with zero power, and scenario S5.
\<close>

theorem CurrentSignerSet_empty_or_panic_witness:
  "included_validators signers_env empty_state = []
   \<and> CurrentSignerSet signers_env empty_state = Inr []
   \<and> included_validators zero_power_env signers_state \<noteq> []
   \<and> totalPower zero_power_env signers_state = 0
   \<and> CurrentSignerSet zero_power_env signers_state = Inl PanicDivisionByZero
   \<and> (\<exists>signers. CurrentSignerSet signers_env signers_state = Inr signers
        \<and> map EthereumAddress signers = [10, 20, 30])"
proof -
  have inc0: "included_validators signers_env empty_state = []"
    by (simp add: included_validators_def signers_env_def GetValidatorEthereumAddress_empty)
  have inc1: "included_validators zero_power_env signers_state \<noteq> []"
    by (simp add: included_validators_def zero_power_env_def signers_state_def
        GetValidatorEthereumAddress_set GetValidatorEthereumAddress_empty)
  have tp1: "totalPower zero_power_env signers_state = 0"
    by (simp add: totalPower_def zero_power_env_def signers_state_def
        GetValidatorEthereumAddress_set GetValidatorEthereumAddress_empty)
  have inc2: "map (GetValidatorEthereumAddress signers_state) (included_validators signers_env signers_state) = [10, 20, 30]"
    by (simp add: included_validators_def signers_env_def signers_state_def
        GetValidatorEthereumAddress_set GetValidatorEthereumAddress_empty)
  have ret: "CurrentSignerSet signers_env signers_state =
      Inr [\<lparr>Power = 2147483647, EthereumAddress = 10\<rparr>,
           \<lparr>Power = 1073741823, EthereumAddress = 20\<rparr>, \<lparr>Power = 1073741823, EthereumAddress = 30\<rparr>]"
    by (simp add: CurrentSignerSet_def signers_env_def signers_state_def GetValidatorEthereumAddress_set
        GetValidatorEthereumAddress_empty normalize_power_def MaxUint32_def)
  from CurrentSignerSet_empty_or_panic [of signers_env empty_state] inc0
  have a: "CurrentSignerSet signers_env empty_state = Inr []" by blast
  from CurrentSignerSet_empty_or_panic [of zero_power_env signers_state] inc1 tp1
  have b: "CurrentSignerSet zero_power_env signers_state = Inl PanicDivisionByZero" by blast
  from CurrentSignerSet_empty_or_panic [of signers_env signers_state] ret inc2
  have c: "\<exists>signers. CurrentSignerSet signers_env signers_state = Inr signers
        \<and> map EthereumAddress signers = [10, 20, 30]" by auto
  from a b c inc0 inc1 tp1 show ?thesis by blast
qed

section \<open>Address directory: properties\<close>

text \<open>
  Claim C8 fails on the code. After one validator has registered its delegate keys
  (validator 7, orchestrator 9, foreign address 5), no validator maps to the address 9
  in the forward index, and a scan of that index finds nothing; the scan of the whole
  store matches the value of the entry from the foreign address to the orchestrator and
  returns its untrimmed key as a validator address.
\<close>

theorem getValidatorsByEthereumAddress_unconfined:
  "GetValidatorEthereumAddress delegate_state (AddressBytes 7) = 5
   \<and> validatorsByForeignAddress_spec delegate_state 9 = []
   \<and> getValidatorsByEthereumAddress delegate_state 9 =
        [EthereumOrchestratorAddressKey # AddressBytes 5]"
  by (simp add: delegate_state_def empty_state_def setEthereumOrchestratorAddress_def
      setValidatorEthereumAddress_def SetOrchestratorValidatorAddress_def
      GetValidatorEthereumAddress_def validatorsByForeignAddress_spec_def
      getValidatorsByEthereumAddress_def store_get_def store_set_def store_iterator_def
      prefix_iterator_def TrimPrefix_def
      MakeEthereumOrchestratorAddressKey_def MakeValidatorEthereumAddressKey_def
      MakeOrchestratorValidatorAddressKey_def
      ValidatorEthereumAddressKey_def OrchestratorValidatorAddressKey_def
      EthereumOrchestratorAddressKey_def)

section \<open>Outgoing-tx store: properties\<close>

text \<open>
  A store index determines the variant, the token contract and the nonce of a batch, so
  the entries under the batch tag are exactly the batches and the type assertions of
  the callbacks never meet another variant.
\<close>

lemma MakeBatchTxKey_inj:
  "MakeBatchTxKey c n = MakeBatchTxKey c' n' \<longleftrightarrow> c = c' \<and> n = n'"
  by (auto simp: MakeBatchTxKey_def dest: AddressBytes_inj Uint64ToBigEndian_inj)

lemma GetStoreIndex_batch_key:
  "GetStoreIndex otx = MakeBatchTxKey c n \<longleftrightarrow>
     (\<exists>b. otx = BatchTx b \<and> TokenContract b = c \<and> BatchNonce b = n)"
  by (cases otx)
     (auto simp: MakeBatchTxKey_inj,
      auto simp: MakeBatchTxKey_def MakeSignerSetTxKey_def MakeContractCallTxKey_def
        BatchTxPrefixByte_def SignerSetTxPrefixByte_def ContractCallTxPrefixByte_def)

lemma batch_prefix_iff:
  "prefix [BatchTxPrefixByte] (GetStoreIndex otx) \<longleftrightarrow> (\<exists>b. otx = BatchTx b)"
  by (cases otx)
     (auto simp: MakeBatchTxKey_def MakeSignerSetTxKey_def MakeContractCallTxKey_def
        BatchTxPrefixByte_def SignerSetTxPrefixByte_def ContractCallTxPrefixByte_def)

lemma batch_txs_filter_prefix:
  "batch_txs (filter (\<lambda>otx. prefix [BatchTxPrefixByte] (GetStoreIndex otx)) otxs) = batch_txs otxs"
  by (induction otxs rule: batch_txs.induct) (simp_all add: batch_prefix_iff)

lemma filter_prefix_map_batch_txs:
  "filter (\<lambda>otx. prefix [BatchTxPrefixByte] (GetStoreIndex otx)) otxs = map BatchTx (batch_txs otxs)"
  by (induction otxs rule: batch_txs.induct) (simp_all add: batch_prefix_iff)

lemma IterateOutgoingTxsByType_batches:
  "IterateOutgoingTxsByType s BatchTxPrefixByte = map BatchTx (batch_txs (iterateOutgoingTxs s))"
  by (simp add: IterateOutgoingTxsByType_def filter_prefix_map_batch_txs)

lemma set_batch_txs: "set (batch_txs otxs) = {b. BatchTx b \<in> set otxs}"
  by (induction otxs rule: batch_txs.induct) auto

lemma set_iterateOutgoingTxs [simp]: "set (iterateOutgoingTxs s) = set (outgoing s)"
  by (simp add: iterateOutgoingTxs_def)

lemma find_filter_keep:
  "(\<And>x. P x \<Longrightarrow> Q x) \<Longrightarrow> find P (filter Q xs) = find P xs"
  by (induction xs) auto

lemma find_filter_none:
  "(\<And>x. P x \<Longrightarrow> \<not> Q x) \<Longrightarrow> find P (filter Q xs) = None"
  by (induction xs) auto

lemma GetOutgoingTx_Some_batch:
  assumes "GetOutgoingTx s (MakeBatchTxKey c n) = Some otx"
  shows "\<exists>b. otx = BatchTx b \<and> TokenContract b = c \<and> BatchNonce b = n \<and> BatchTx b \<in> set (outgoing s)"
proof -
  from assms have "GetStoreIndex otx = MakeBatchTxKey c n" and "otx \<in> set (outgoing s)"
    by (auto simp: GetOutgoingTx_def find_Some_iff)
  then show ?thesis by (auto simp: GetStoreIndex_batch_key)
qed

lemma GetOutgoingTx_present:
  assumes "BatchTx B \<in> set (outgoing s)"
  shows "\<exists>b. GetOutgoingTx s (MakeBatchTxKey (TokenContract B) (BatchNonce B)) = Some (BatchTx b)
            \<and> TokenContract b = TokenContract B \<and> BatchNonce b = BatchNonce B"
proof -
  have "GetOutgoingTx s (MakeBatchTxKey (TokenContract B) (BatchNonce B)) \<noteq> None"
    using assms by (auto simp: GetOutgoingTx_def find_None_iff)
  then obtain otx where "GetOutgoingTx s (MakeBatchTxKey (TokenContract B) (BatchNonce B)) = Some otx"
    by auto
  with GetOutgoingTx_Some_batch [OF this] show ?thesis by auto
qed

lemma GetOutgoingTx_None_iff:
  "GetOutgoingTx s k = None \<longleftrightarrow> (\<forall>otx \<in> set (outgoing s). GetStoreIndex otx \<noteq> k)"
  by (auto simp: GetOutgoingTx_def find_None_iff)

lemma GetOutgoingTx_DeleteOutgoingTx:
  "GetOutgoingTx (DeleteOutgoingTx k s) k' = (if k' = k then None else GetOutgoingTx s k')"
  by (auto simp: GetOutgoingTx_def DeleteOutgoingTx_def find_filter_none find_filter_keep)

lemma GetOutgoingTx_burn_calls [simp]:
  "GetOutgoingTx (s\<lparr>burn_calls := x\<rparr>) k = GetOutgoingTx s k"
  by (simp add: GetOutgoingTx_def)

lemma outgoing_DeleteOutgoingTx [simp]:
  "outgoing (DeleteOutgoingTx k s) = filter (\<lambda>x. GetStoreIndex x \<noteq> k) (outgoing s)"
  by (simp add: DeleteOutgoingTx_def)

lemma unbatched_DeleteOutgoingTx [simp]: "unbatched (DeleteOutgoingTx k s) = unbatched s"
  by (simp add: DeleteOutgoingTx_def)

lemma burn_calls_DeleteOutgoingTx [simp]: "burn_calls (DeleteOutgoingTx k s) = burn_calls s"
  by (simp add: DeleteOutgoingTx_def)

section \<open>Executing a batch: properties\<close>

lemma cancel_loop:
  "iterate_cb_err (cancel_cb B) (map BatchTx bs) s =
     Inr (fold CancelBatchTx
            (filter (\<lambda>b. BatchNonce b < BatchNonce B \<and> TokenContract b = TokenContract B) bs) s)"
  by (induction bs arbitrary: s) (simp_all add: cancel_cb_def)

lemma fold_setUnbatched:
  "fold setUnbatchedSendToEthereum txs s = s\<lparr>unbatched := fold reinsert txs (unbatched s)\<rparr>"
  by (induction txs arbitrary: s) (simp_all add: setUnbatchedSendToEthereum_def reinsert_def)

lemma CancelBatchTx_eq:
  "CancelBatchTx b s =
     s\<lparr>unbatched := fold reinsert (Transactions b) (unbatched s),
       outgoing := filter (\<lambda>x. GetStoreIndex x \<noteq> GetStoreIndex (BatchTx b)) (outgoing s),
       events := events s @ [cancel_event s b]\<rparr>"
  by (simp add: CancelBatchTx_def fold_setUnbatched DeleteOutgoingTx_def EmitEvent_def
      cancel_event_def getBridgeContractAddress_def getBridgeChainID_def Let_def)

lemma fold_CancelBatchTx:
  "fold CancelBatchTx bs s =
     s\<lparr>unbatched := fold reinsert (concat (map Transactions bs)) (unbatched s),
       outgoing := filter (\<lambda>x. GetStoreIndex x \<notin> (\<lambda>b. GetStoreIndex (BatchTx b)) ` set bs) (outgoing s),
       events := events s @ map (cancel_event s) bs\<rparr>"
proof (induction bs arbitrary: s)
  case Nil
  then show ?case by simp
next
  case (Cons b bs)
  have ev: "cancel_event (CancelBatchTx b s) = cancel_event s"
    by (rule ext) (simp add: CancelBatchTx_eq cancel_event_def getBridgeContractAddress_def
        getBridgeChainID_def)
  have flt: "filter (\<lambda>x. GetStoreIndex x \<notin> (\<lambda>b. GetStoreIndex (BatchTx b)) ` set bs)
               (filter (\<lambda>x. GetStoreIndex x \<noteq> GetStoreIndex (BatchTx b)) (outgoing s))
             = filter (\<lambda>x. GetStoreIndex x \<notin> (\<lambda>b. GetStoreIndex (BatchTx b)) ` set (b # bs)) (outgoing s)"
    by (auto intro: filter_cong)
  show ?case
    by (simp add: Cons.IH ev) (simp add: CancelBatchTx_eq flt)
qed

lemma batchTxExecuted_found:
  assumes "GetOutgoingTx s (MakeBatchTxKey c n) = Some (BatchTx B)"
  shows "batchTxExecuted e c n s =
     (case ERC20ToDenomLookup e (TokenContract B) of
        (isCosmosOriginated, denom) \<Rightarrow>
          if \<not> isCosmosOriginated then
            (case burn_total B (Transactions B) 0 of
               None \<Rightarrow> Inr (Some ErrInvalid, after_cancel s B)
             | Some totalToBurn \<Rightarrow>
                 if BurnCoinsSucceeds e denom totalToBurn
                 then Inr (None, DeleteOutgoingTx (GetStoreIndex (BatchTx B))
                        ((after_cancel s B)\<lparr>burn_calls := burn_calls s @ [(denom, totalToBurn)]\<rparr>))
                 else Inr (Some ErrBurnFailed,
                        (after_cancel s B)\<lparr>burn_calls := burn_calls s @ [(denom, totalToBurn)]\<rparr>))
          else Inr (None, DeleteOutgoingTx (GetStoreIndex (BatchTx B)) (after_cancel s B)))"
  using assms
  by (simp add: batchTxExecuted_def IterateOutgoingTxsByType_batches cancel_loop after_cancel_def
      cancelled_batches_def fold_CancelBatchTx Let_def split: prod.splits option.splits)

lemma outgoing_after_cancel:
  "outgoing (after_cancel s B) =
     filter (\<lambda>x. GetStoreIndex x \<notin> (\<lambda>b. GetStoreIndex (BatchTx b)) ` set (cancelled_batches s B))
       (outgoing s)"
  by (simp add: after_cancel_def fold_CancelBatchTx)

lemma unbatched_after_cancel:
  "unbatched (after_cancel s B) =
     fold reinsert (concat (map Transactions (cancelled_batches s B))) (unbatched s)"
  by (simp add: after_cancel_def fold_CancelBatchTx)

lemma burn_calls_after_cancel [simp]: "burn_calls (after_cancel s B) = burn_calls s"
  by (simp add: after_cancel_def fold_CancelBatchTx)

lemma set_cancelled_batches:
  "set (cancelled_batches s B) =
     {b. BatchTx b \<in> set (outgoing s) \<and> BatchNonce b < BatchNonce B \<and> TokenContract b = TokenContract B}"
  by (auto simp: cancelled_batches_def set_batch_txs)

lemma lower_batches_gone:
  assumes "BatchTx b \<in> set (outgoing (after_cancel s B))"
  shows "\<not> (TokenContract b = TokenContract B \<and> BatchNonce b < BatchNonce B)"
proof
  assume low: "TokenContract b = TokenContract B \<and> BatchNonce b < BatchNonce B"
  from assms have "BatchTx b \<in> set (outgoing s)"
    by (simp add: outgoing_after_cancel)
  with low have "b \<in> set (cancelled_batches s B)"
    by (simp add: set_cancelled_batches)
  with assms show False
    by (auto simp: outgoing_after_cancel)
qed

lemma executed_batch_kept:
  "GetOutgoingTx (after_cancel s B) (GetStoreIndex (BatchTx B)) = GetOutgoingTx s (GetStoreIndex (BatchTx B))"
  unfolding GetOutgoingTx_def outgoing_after_cancel
  by (rule find_filter_keep) (auto simp: set_cancelled_batches MakeBatchTxKey_inj)

lemma lower_batch_absent:
  assumes "TokenContract B' = TokenContract B" and "BatchNonce B' < BatchNonce B"
  shows "GetOutgoingTx (after_cancel s B) (GetStoreIndex (BatchTx B')) = None"
  unfolding GetOutgoingTx_None_iff
proof
  fix otx
  assume mem: "otx \<in> set (outgoing (after_cancel s B))"
  show "GetStoreIndex otx \<noteq> GetStoreIndex (BatchTx B')"
  proof
    assume "GetStoreIndex otx = GetStoreIndex (BatchTx B')"
    then obtain b where b: "otx = BatchTx b" "TokenContract b = TokenContract B'" "BatchNonce b = BatchNonce B'"
      by (auto simp: GetStoreIndex_batch_key)
    with mem assms lower_batches_gone [of b s B] show False by simp
  qed
qed

lemma reinserted_key_present:
  "tx \<in> set txs \<Longrightarrow> pool_key tx \<in> pool_key ` set (fold reinsert txs pool)"
proof (induction txs arbitrary: pool)
  case Nil
  then show ?case by simp
next
  case (Cons a txs)
  have keep: "pool_key x \<in> pool_key ` set (fold reinsert ys p)" if "x \<in> set p" for x ys p
    using that
  proof (induction ys arbitrary: p x)
    case Nil
    then show ?case by simp
  next
    case (Cons y ys)
    show ?case
    proof (cases "pool_key x = pool_key y")
      case True
      have "pool_key y \<in> pool_key ` set (fold reinsert ys (reinsert y p))"
        by (rule Cons.IH) (simp add: reinsert_def)
      with True show ?thesis by simp
    next
      case False
      with Cons.prems have "x \<in> set (reinsert y p)" by (simp add: reinsert_def)
      then show ?thesis using Cons.IH by simp
    qed
  qed
  show ?case
  proof (cases "tx = a")
    case True
    have "pool_key a \<in> pool_key ` set (fold reinsert txs (reinsert a pool))"
      by (rule keep) (simp add: reinsert_def)
    with True show ?thesis by simp
  next
    case False
    with Cons show ?thesis by simp
  qed
qed

lemma batchTxExecuted_result:
  assumes "GetOutgoingTx s (MakeBatchTxKey c n) = Some (BatchTx B)"
      and "batchTxExecuted e c n s = Inr (r, s')"
  shows "unbatched s' = unbatched (after_cancel s B)
       \<and> (r = None \<longrightarrow> outgoing s' = filter (\<lambda>x. GetStoreIndex x \<noteq> GetStoreIndex (BatchTx B))
                                        (outgoing (after_cancel s B)))
       \<and> (r \<noteq> None \<longrightarrow> outgoing s' = outgoing (after_cancel s B)
                         \<and> (r = Some ErrInvalid \<or> r = Some ErrBurnFailed))"
  using assms(2) unfolding batchTxExecuted_found [OF assms(1)]
  by (auto split: prod.splits option.splits if_splits)

text \<open>
  Claim C2. Let the batch \<open>B\<close> be in the outgoing-tx store and let
  \<open>batchTxExecuted\<close> for its token contract and nonce return without error. Then no
  entry is left under the store index of \<open>B\<close>; no batch of the same token contract
  and a strictly lower nonce is in the store any more; the pool is the old pool with
  every transaction of every cancelled batch written back into it, newest batch first;
  and each such transaction has an entry under its pool key.
\<close>

theorem batchTxExecuted_success:
  assumes "BatchTx B \<in> set (outgoing s)"
      and "batchTxExecuted e (TokenContract B) (BatchNonce B) s = Inr (None, s')"
  shows "GetOutgoingTx s' (GetStoreIndex (BatchTx B)) = None
       \<and> BatchTx B \<notin> set (outgoing s')
       \<and> (\<forall>B'. TokenContract B' = TokenContract B \<and> BatchNonce B' < BatchNonce B \<longrightarrow>
             GetOutgoingTx s' (GetStoreIndex (BatchTx B')) = None \<and> BatchTx B' \<notin> set (outgoing s'))
       \<and> unbatched s' = fold reinsert (concat (map Transactions (cancelled_batches s B))) (unbatched s)
       \<and> (\<forall>B'. BatchTx B' \<in> set (outgoing s) \<and> TokenContract B' = TokenContract B
               \<and> BatchNonce B' < BatchNonce B \<longrightarrow>
             (\<forall>tx \<in> set (Transactions B'). pool_key tx \<in> pool_key ` set (unbatched s')))"
proof -
  from GetOutgoingTx_present [OF assms(1)] obtain B0 where
    found: "GetOutgoingTx s (MakeBatchTxKey (TokenContract B) (BatchNonce B)) = Some (BatchTx B0)"
    and same: "TokenContract B0 = TokenContract B" "BatchNonce B0 = BatchNonce B"
    by blast
  have idx: "GetStoreIndex (BatchTx B0) = GetStoreIndex (BatchTx B)"
    by (simp add: same)
  have canc: "cancelled_batches s B0 = cancelled_batches s B"
    by (simp add: cancelled_batches_def same)
  have ac: "after_cancel s B0 = after_cancel s B"
    by (simp add: after_cancel_def canc)
  from batchTxExecuted_result [OF found assms(2)] have
    pool: "unbatched s' = unbatched (after_cancel s B)"
    and out: "outgoing s' = filter (\<lambda>x. GetStoreIndex x \<noteq> GetStoreIndex (BatchTx B)) (outgoing (after_cancel s B))"
    unfolding ac idx by auto
  have gone: "GetOutgoingTx s' (GetStoreIndex (BatchTx B)) = None"
    unfolding GetOutgoingTx_None_iff out by auto
  have notin: "BatchTx B \<notin> set (outgoing s')"
    by (simp add: out)
  have lower: "GetOutgoingTx s' (GetStoreIndex (BatchTx B')) = None \<and> BatchTx B' \<notin> set (outgoing s')"
    if "TokenContract B' = TokenContract B" "BatchNonce B' < BatchNonce B" for B'
  proof -
    have "GetOutgoingTx (after_cancel s B) (GetStoreIndex (BatchTx B')) = None"
      using that by (rule lower_batch_absent)
    then have "\<forall>otx \<in> set (outgoing s'). GetStoreIndex otx \<noteq> GetStoreIndex (BatchTx B')"
      by (auto simp: GetOutgoingTx_None_iff out)
    then show ?thesis
      by (auto simp: GetOutgoingTx_None_iff)
  qed
  have pool_eq: "unbatched s' = fold reinsert (concat (map Transactions (cancelled_batches s B))) (unbatched s)"
    by (simp add: pool unbatched_after_cancel)
  have reins: "pool_key tx \<in> pool_key ` set (unbatched s')"
    if "BatchTx B' \<in> set (outgoing s)" "TokenContract B' = TokenContract B"
       "BatchNonce B' < BatchNonce B" "tx \<in> set (Transactions B')" for B' tx
  proof -
    have "B' \<in> set (cancelled_batches s B)"
      using that by (simp add: set_cancelled_batches)
    with that(4) have "tx \<in> set (concat (map Transactions (cancelled_batches s B)))"
      by auto
    then show ?thesis
      unfolding pool_eq by (rule reinserted_key_present)
  qed
  from gone notin lower pool_eq reins show ?thesis by blast
qed

text \<open>
  Scenario S3 with the nonces 1 and 2: executing batch 2 removes it, cancels batch 1
  and puts the transaction of batch 1 back into the pool.
\<close>

theorem batchTxExecuted_success_witness:
  "BatchTx batch_2 \<in> set (outgoing two_batches_state)
   \<and> batchTxExecuted burn_env (TokenContract batch_2) (BatchNonce batch_2) two_batches_state
       = Inr (None, executed_state)
   \<and> BatchTx batch_1 \<in> set (outgoing two_batches_state)
   \<and> GetOutgoingTx executed_state (GetStoreIndex (BatchTx batch_2)) = None
   \<and> GetOutgoingTx executed_state (GetStoreIndex (BatchTx batch_1)) = None
   \<and> BatchTx batch_1 \<notin> set (outgoing executed_state)
   \<and> pool_key ste_a \<in> pool_key ` set (unbatched executed_state)
   \<and> unbatched two_batches_state = []
   \<and> unbatched executed_state = [ste_a]"
proof -
  have h1: "BatchTx batch_2 \<in> set (outgoing two_batches_state)"
    by code_simp
  have h2: "batchTxExecuted burn_env (TokenContract batch_2) (BatchNonce batch_2) two_batches_state
              = Inr (None, executed_state)"
    by code_simp
  have low: "TokenContract batch_1 = TokenContract batch_2 \<and> BatchNonce batch_1 < BatchNonce batch_2"
    by code_simp
  have mem: "BatchTx batch_1 \<in> set (outgoing two_batches_state)"
    by code_simp
  have tx: "ste_a \<in> set (Transactions batch_1)"
    by code_simp
  have before: "unbatched two_batches_state = []"
    by code_simp
  have after: "unbatched executed_state = [ste_a]"
    by code_simp
  from batchTxExecuted_success [OF h1 h2] low mem tx have
    "GetOutgoingTx executed_state (GetStoreIndex (BatchTx batch_2)) = None"
    "GetOutgoingTx executed_state (GetStoreIndex (BatchTx batch_1)) = None"
    "BatchTx batch_1 \<notin> set (outgoing executed_state)"
    "pool_key ste_a \<in> pool_key ` set (unbatched executed_state)"
    by blast+
  with h1 h2 mem before after show ?thesis by simp
qed

text \<open>
  Claim C9. When \<open>batchTxExecuted\<close> returns an error, the error is the invariant
  error or the bank's, and the state it returns keeps what the scan wrote: every batch
  of the same token contract and a strictly lower nonce is gone from the store, their
  transactions are back in the pool, and the executed batch is still in the store.
\<close>

theorem batchTxExecuted_error_keeps_writes:
  assumes "batchTxExecuted e c n s = Inr (Some err, s')"
  shows "\<exists>B. GetOutgoingTx s (MakeBatchTxKey c n) = Some (BatchTx B)
       \<and> GetOutgoingTx s' (MakeBatchTxKey c n) = Some (BatchTx B)
       \<and> (err = ErrInvalid \<or> err = ErrBurnFailed)
       \<and> (\<forall>B'. TokenContract B' = c \<and> BatchNonce B' < n \<longrightarrow>
             GetOutgoingTx s' (GetStoreIndex (BatchTx B')) = None \<and> BatchTx B' \<notin> set (outgoing s'))
       \<and> unbatched s' = fold reinsert (concat (map Transactions (cancelled_batches s B))) (unbatched s)
       \<and> (\<forall>B'. BatchTx B' \<in> set (outgoing s) \<and> TokenContract B' = c \<and> BatchNonce B' < n \<longrightarrow>
             (\<forall>tx \<in> set (Transactions B'). pool_key tx \<in> pool_key ` set (unbatched s')))"
proof -
  from assms obtain otx where otx: "GetOutgoingTx s (MakeBatchTxKey c n) = Some otx"
    by (cases "GetOutgoingTx s (MakeBatchTxKey c n)") (auto simp: batchTxExecuted_def)
  from GetOutgoingTx_Some_batch [OF otx] obtain B where
    B: "otx = BatchTx B" "TokenContract B = c" "BatchNonce B = n"
    by blast
  have found: "GetOutgoingTx s (MakeBatchTxKey c n) = Some (BatchTx B)"
    using otx B by simp
  have key: "GetStoreIndex (BatchTx B) = MakeBatchTxKey c n"
    by (simp add: B)
  from batchTxExecuted_result [OF found assms] have
    pool: "unbatched s' = unbatched (after_cancel s B)"
    and out: "outgoing s' = outgoing (after_cancel s B)"
    and err: "err = ErrInvalid \<or> err = ErrBurnFailed"
    by auto
  have get: "GetOutgoingTx s' k = GetOutgoingTx (after_cancel s B) k" for k
    by (simp add: GetOutgoingTx_def out)
  have kept: "GetOutgoingTx s' (MakeBatchTxKey c n) = Some (BatchTx B)"
    using executed_batch_kept [of s B] found unfolding get key by simp
  have lower: "GetOutgoingTx s' (GetStoreIndex (BatchTx B')) = None \<and> BatchTx B' \<notin> set (outgoing s')"
    if "TokenContract B' = c" "BatchNonce B' < n" for B'
  proof -
    have "GetOutgoingTx s' (GetStoreIndex (BatchTx B')) = None"
      using that lower_batch_absent [of B' B s] by (simp add: get B)
    then show ?thesis
      by (auto simp: GetOutgoingTx_None_iff)
  qed
  have pool_eq: "unbatched s' = fold reinsert (concat (map Transactions (cancelled_batches s B))) (unbatched s)"
    by (simp add: pool unbatched_after_cancel)
  have reins: "pool_key tx \<in> pool_key ` set (unbatched s')"
    if "BatchTx B' \<in> set (outgoing s)" "TokenContract B' = c" "BatchNonce B' < n"
       "tx \<in> set (Transactions B')" for B' tx
  proof -
    have "B' \<in> set (cancelled_batches s B)"
      using that by (simp add: set_cancelled_batches B)
    with that(4) have "tx \<in> set (concat (map Transactions (cancelled_batches s B)))"
      by auto
    then show ?thesis
      unfolding pool_eq by (rule reinserted_key_present)
  qed
  from found kept err lower pool_eq reins show ?thesis by blast
qed

text \<open>
  With a bank that refuses the burn, executing batch 2 returns the bank's error in a
  state where batch 1 is cancelled and batch 2 is still stored.
\<close>

theorem batchTxExecuted_error_keeps_writes_witness:
  "batchTxExecuted failing_bank_env 1 2 two_batches_state = Inr (Some ErrBurnFailed, burn_failed_state)
   \<and> GetOutgoingTx two_batches_state (MakeBatchTxKey 1 2) = Some (BatchTx batch_2)
   \<and> GetOutgoingTx burn_failed_state (MakeBatchTxKey 1 2) = Some (BatchTx batch_2)
   \<and> BatchTx batch_1 \<in> set (outgoing two_batches_state)
   \<and> BatchTx batch_1 \<notin> set (outgoing burn_failed_state)
   \<and> pool_key ste_a \<in> pool_key ` set (unbatched burn_failed_state)
   \<and> unbatched two_batches_state = []
   \<and> unbatched burn_failed_state = [ste_a]"
proof -
  have h: "batchTxExecuted failing_bank_env 1 2 two_batches_state = Inr (Some ErrBurnFailed, burn_failed_state)"
    by code_simp
  have found: "GetOutgoingTx two_batches_state (MakeBatchTxKey 1 2) = Some (BatchTx batch_2)"
    by code_simp
  have low: "TokenContract batch_1 = 1 \<and> BatchNonce batch_1 < 2"
    by code_simp
  have mem: "BatchTx batch_1 \<in> set (outgoing two_batches_state)"
    by code_simp
  have tx: "ste_a \<in> set (Transactions batch_1)"
    by code_simp
  have before: "unbatched two_batches_state = []"
    by code_simp
  have after: "unbatched burn_failed_state = [ste_a]"
    by code_simp
  from batchTxExecuted_error_keeps_writes [OF h] found low mem tx have
    "GetOutgoingTx burn_failed_state (MakeBatchTxKey 1 2) = Some (BatchTx batch_2)"
    "BatchTx batch_1 \<notin> set (outgoing burn_failed_state)"
    "pool_key ste_a \<in> pool_key ` set (unbatched burn_failed_state)"
    by auto
  with h found mem before after show ?thesis by simp
qed





section \<open>Building a batch: properties\<close>

lemma fees_cb_step:
  "fees_cb n x (f, i) = ((f + Amount (Erc20Fee x), i + 1), i + 1 = n)"
  by (simp add: fees_cb_def)

lemma select_cb_step:
  "select_cb n x (sel, s) =
     ((sel @ [x], deleteUnbatchedSendToEthereum (Id x) (Erc20Fee x) s), int (length sel) + 1 = n)"
  by (auto simp: select_cb_def)

lemma last_batch_cb_step:
  "last_batch_cb c (BatchTx b) (lb, m) =
     (if TokenContract b = c \<and> m < BatchNonce b then Inr ((Some b, BatchNonce b), False)
      else Inr ((lb, m), False))"
  by (simp add: last_batch_cb_def)

lemma fees_loop:
  "iterate_cb (fees_cb n) L (f, i) =
     (f + fee_sum (if i < n then take (nat (n - i)) L else L),
      i + int (length (if i < n then take (nat (n - i)) L else L)))"
proof (induction L arbitrary: f i)
  case Nil
  then show ?case by (simp add: fee_sum_def)
next
  case (Cons x L)
  show ?case
  proof (cases "i + 1 = n")
    case True
    then have "nat (n - i) = Suc 0" by simp
    with True show ?thesis
      by (simp add: fees_cb_step fee_sum_def)
  next
    case False
    show ?thesis
    proof (cases "i < n")
      case True
      with False have lt: "i + 1 < n" by simp
      then have "nat (n - i) = Suc (nat (n - (i + 1)))" by simp
      with False lt True show ?thesis
        by (simp add: fees_cb_step Cons.IH fee_sum_def)
    next
      case ge: False
      then have "\<not> i + 1 < n" by simp
      with False ge show ?thesis
        by (simp add: fees_cb_step Cons.IH fee_sum_def)
    qed
  qed
qed

lemma getBatchFeesByTokenType_eq:
  "n \<noteq> 0 \<Longrightarrow> getBatchFeesByTokenType s c n = fee_sum (first_unbatched s c n)"
  by (auto simp: getBatchFeesByTokenType_def fees_loop first_unbatched_def)

lemma delete_selected_Nil [simp]: "delete_selected [] s = s"
  by (simp add: delete_selected_def)

lemma delete_selected_Cons:
  "delete_selected W (deleteUnbatchedSendToEthereum (Id x) (Erc20Fee x) s) = delete_selected (x # W) s"
  by (auto simp: delete_selected_def deleteUnbatchedSendToEthereum_def pool_key_def intro: filter_cong)

lemma select_loop:
  "iterate_cb (select_cb n) L (sel, s) =
     (sel @ (if int (length sel) < n then take (nat n - length sel) L else L),
      delete_selected (if int (length sel) < n then take (nat n - length sel) L else L) s)"
proof (induction L arbitrary: sel s)
  case Nil
  then show ?case by simp
next
  case (Cons x L)
  show ?case
  proof (cases "int (length sel) + 1 = n")
    case True
    then have "nat n - length sel = Suc 0" by linarith
    with True show ?thesis
      by (simp add: select_cb_step delete_selected_Cons [of "[]", simplified])
  next
    case False
    show ?thesis
    proof (cases "int (length sel) < n")
      case True
      with False have lt: "int (length sel) + 1 < n" by simp
      then have "nat n - length sel = Suc (nat n - Suc (length sel))" by linarith
      with False lt True show ?thesis
        by (simp add: select_cb_step Cons.IH delete_selected_Cons)
    next
      case ge: False
      then have "\<not> int (length sel) + 1 < n" by simp
      with False ge show ?thesis
        by (simp add: select_cb_step Cons.IH delete_selected_Cons)
    qed
  qed
qed

lemma select_all:
  "n \<noteq> 0 \<Longrightarrow> iterate_cb (select_cb n) (iterateUnbatchedSendToEthereumsByContract s c) ([], s) =
     (first_unbatched s c n, delete_selected (first_unbatched s c n) s)"
  by (auto simp: select_loop first_unbatched_def)

lemma last_batch_scan:
  "\<exists>lb m. iterate_cb_err (last_batch_cb c) (map BatchTx bs) (lb0, m0) = Inr (lb, m)
      \<and> m0 \<le> m
      \<and> (\<forall>b \<in> set bs. TokenContract b = c \<longrightarrow> BatchNonce b \<le> m)
      \<and> (m = m0 \<and> lb = lb0
          \<or> (\<exists>b \<in> set bs. lb = Some b \<and> TokenContract b = c \<and> BatchNonce b = m \<and> m0 < m))"
proof (induction bs arbitrary: lb0 m0)
  case Nil
  then show ?case by simp
next
  case (Cons b bs)
  show ?case
  proof (cases "TokenContract b = c \<and> m0 < BatchNonce b")
    case True
    from Cons.IH [of "Some b" "BatchNonce b"] obtain lb m where
      r: "iterate_cb_err (last_batch_cb c) (map BatchTx bs) (Some b, BatchNonce b) = Inr (lb, m)"
      and le: "BatchNonce b \<le> m"
      and all: "\<forall>b \<in> set bs. TokenContract b = c \<longrightarrow> BatchNonce b \<le> m"
      and alt: "m = BatchNonce b \<and> lb = Some b
          \<or> (\<exists>b' \<in> set bs. lb = Some b' \<and> TokenContract b' = c \<and> BatchNonce b' = m \<and> BatchNonce b < m)"
      by blast
    have "iterate_cb_err (last_batch_cb c) (map BatchTx (b # bs)) (lb0, m0) = Inr (lb, m)"
      using True r by (simp add: last_batch_cb_step)
    moreover have "m0 \<le> m" using True le by (metis order_less_imp_le order_trans)
    moreover have "\<forall>b' \<in> set (b # bs). TokenContract b' = c \<longrightarrow> BatchNonce b' \<le> m"
      using all le by simp
    moreover have "\<exists>b' \<in> set (b # bs). lb = Some b' \<and> TokenContract b' = c \<and> BatchNonce b' = m \<and> m0 < m"
      using alt True le by auto
    ultimately show ?thesis by blast
  next
    case False
    from Cons.IH [of lb0 m0] obtain lb m where
      r: "iterate_cb_err (last_batch_cb c) (map BatchTx bs) (lb0, m0) = Inr (lb, m)"
      and le: "m0 \<le> m"
      and all: "\<forall>b \<in> set bs. TokenContract b = c \<longrightarrow> BatchNonce b \<le> m"
      and alt: "m = m0 \<and> lb = lb0
          \<or> (\<exists>b' \<in> set bs. lb = Some b' \<and> TokenContract b' = c \<and> BatchNonce b' = m \<and> m0 < m)"
      by blast
    have "iterate_cb_err (last_batch_cb c) (map BatchTx (b # bs)) (lb0, m0) = Inr (lb, m)"
      using False r by (auto simp: last_batch_cb_step)
    moreover have "\<forall>b' \<in> set (b # bs). TokenContract b' = c \<longrightarrow> BatchNonce b' \<le> m"
      using all le False by auto
    moreover have "m = m0 \<and> lb = lb0
          \<or> (\<exists>b' \<in> set (b # bs). lb = Some b' \<and> TokenContract b' = c \<and> BatchNonce b' = m \<and> m0 < m)"
      using alt by auto
    ultimately show ?thesis using le by blast
  qed
qed

lemma getLastOutgoingBatchByTokenType_cases:
  "\<exists>lb m. getLastOutgoingBatchByTokenType s c = Inr lb
      \<and> (\<forall>b. BatchTx b \<in> set (outgoing s) \<and> TokenContract b = c \<longrightarrow> BatchNonce b \<le> m)
      \<and> (m = 0 \<and> lb = None
          \<or> (\<exists>b. BatchTx b \<in> set (outgoing s) \<and> lb = Some b \<and> TokenContract b = c
                \<and> BatchNonce b = m \<and> 0 < m))"
proof -
  from last_batch_scan [of c "batch_txs (iterateOutgoingTxs s)" None 0]
  obtain lb m where
    r: "iterate_cb_err (last_batch_cb c) (map BatchTx (batch_txs (iterateOutgoingTxs s))) (None, 0) = Inr (lb, m)"
    and all: "\<forall>b \<in> set (batch_txs (iterateOutgoingTxs s)). TokenContract b = c \<longrightarrow> BatchNonce b \<le> m"
    and alt: "m = 0 \<and> lb = None
          \<or> (\<exists>b \<in> set (batch_txs (iterateOutgoingTxs s)). lb = Some b \<and> TokenContract b = c \<and> BatchNonce b = m \<and> 0 < m)"
    by blast
  have "getLastOutgoingBatchByTokenType s c = Inr lb"
    by (simp add: getLastOutgoingBatchByTokenType_def IterateOutgoingTxsByType_batches r)
  with all alt show ?thesis
    by (auto simp: set_batch_txs)
qed

lemma getLastOutgoingBatchByTokenType_Inr:
  "\<exists>lb. getLastOutgoingBatchByTokenType s c = Inr lb"
  using getLastOutgoingBatchByTokenType_cases [of s c] by blast

lemma getLastOutgoingBatchByTokenType_greatest:
  assumes dist: "distinct (map GetStoreIndex (outgoing s))"
      and mem: "BatchTx lb \<in> set (outgoing s)"
      and con: "TokenContract lb = c"
      and max: "\<forall>b. BatchTx b \<in> set (outgoing s) \<and> TokenContract b = c \<longrightarrow> BatchNonce b \<le> BatchNonce lb"
      and nz: "BatchNonce lb \<noteq> 0"
  shows "getLastOutgoingBatchByTokenType s c = Inr (Some lb)"
proof -
  from getLastOutgoingBatchByTokenType_cases [of s c] obtain r m where
    res: "getLastOutgoingBatchByTokenType s c = Inr r"
    and all: "\<forall>b. BatchTx b \<in> set (outgoing s) \<and> TokenContract b = c \<longrightarrow> BatchNonce b \<le> m"
    and alt: "m = 0 \<and> r = None
          \<or> (\<exists>b. BatchTx b \<in> set (outgoing s) \<and> r = Some b \<and> TokenContract b = c
                \<and> BatchNonce b = m \<and> 0 < m)"
    by blast
  from all mem con have "BatchNonce lb \<le> m" by blast
  with nz have "m \<noteq> 0" by auto
  with alt obtain b where b: "BatchTx b \<in> set (outgoing s)" "r = Some b" "TokenContract b = c" "BatchNonce b = m"
    by blast
  from max b have "m \<le> BatchNonce lb" by blast
  with \<open>BatchNonce lb \<le> m\<close> have "BatchNonce b = BatchNonce lb" using b by simp
  then have eq: "GetStoreIndex (BatchTx b) = GetStoreIndex (BatchTx lb)"
    using b con by simp
  have inj: "inj_on GetStoreIndex (set (outgoing s))"
    using dist by (simp add: distinct_map)
  from inj_onD [OF inj eq b(1) mem] have "b = lb" by simp
  with res b show ?thesis by simp
qed

lemma getTimeoutHeight_unbatched [simp]:
  "getTimeoutHeight e (s\<lparr>unbatched := x\<rparr>) = getTimeoutHeight e s"
  by (simp add: getTimeoutHeight_def GetLastObservedEthereumBlockHeight_def)

lemma getTimeoutHeight_counter [simp]:
  "getTimeoutHeight e (s\<lparr>last_outgoing_batch_nonce := y\<rparr>) = getTimeoutHeight e s"
  by (simp add: getTimeoutHeight_def GetLastObservedEthereumBlockHeight_def)

lemma batch_nonce_counter_unbatched [simp]:
  "batch_nonce_counter (s\<lparr>unbatched := x\<rparr>) = batch_nonce_counter s"
  by (simp add: batch_nonce_counter_def)

lemma BuildBatchTx_unfold:
  assumes "n \<noteq> 0"
  shows "BuildBatchTx e c n s =
     (case getLastOutgoingBatchByTokenType s c of
        Inl err \<Rightarrow> Inl err
      | Inr lastBatch \<Rightarrow>
          if (case lastBatch of None \<Rightarrow> False
              | Some lb \<Rightarrow> fee_sum (first_unbatched s c n) \<le> GetFees lb)
          then Inr (None, s)
          else if first_unbatched s c n = [] then Inr (None, s)
          else
            (case getTimeoutHeight e s of
               Inl err \<Rightarrow> Inl err
             | Inr timeout \<Rightarrow>
                 Inr (Some \<lparr>BatchNonce = batch_nonce_counter s + 1, Timeout = timeout,
                            Transactions = first_unbatched s c n, TokenContract = c,
                            Height = BlockHeight e\<rparr>,
                      s\<lparr>unbatched := filter (\<lambda>x. pool_key x \<notin> pool_key ` set (first_unbatched s c n))
                                        (unbatched s),
                        last_outgoing_batch_nonce := Some (batch_nonce_counter s + 1),
                        outgoing := BatchTx \<lparr>BatchNonce = batch_nonce_counter s + 1, Timeout = timeout,
                                      Transactions = first_unbatched s c n, TokenContract = c,
                                      Height = BlockHeight e\<rparr>
                                    # filter (\<lambda>x. GetStoreIndex x \<noteq>
                                          MakeBatchTxKey c (batch_nonce_counter s + 1)) (outgoing s),
                        events := events s @ [build_event s (batch_nonce_counter s + 1)]\<rparr>)))"
  using assms
  by (simp add: BuildBatchTx_def getBatchFeesByTokenType_eq select_all
      incrementLastOutgoingBatchNonce_def Let_def batch_nonce_counter_def [symmetric]
      delete_selected_def
      split: sum.splits option.splits)
     (auto simp: SetOutgoingTx_def EmitEvent_def build_event_def
      getBridgeContractAddress_def getBridgeChainID_def)

lemma set_iterateUnbatched:
  "set (iterateUnbatchedSendToEthereumsByContract s c) =
     {x \<in> set (unbatched s). Contract (Erc20Fee x) = c}"
  by (auto simp: iterateUnbatchedSendToEthereumsByContract_def)

lemma drained_pool:
  "filter (\<lambda>x. pool_key x \<notin> pool_key ` set (iterateUnbatchedSendToEthereumsByContract s c)) (unbatched s)
     = filter (\<lambda>x. Contract (Erc20Fee x) \<noteq> c) (unbatched s)"
  by (rule filter_cong)
     (auto simp: set_iterateUnbatched pool_key_def MakeSendToEthereumKey_def image_iff)

lemma iterateUnbatched_drained:
  "unbatched s' = filter (\<lambda>x. Contract (Erc20Fee x) \<noteq> c) (unbatched s)
   \<Longrightarrow> iterateUnbatchedSendToEthereumsByContract s' c = []"
  by (simp add: iterateUnbatchedSendToEthereumsByContract_def)

text \<open>
  Claim C3, as amended. Let the keys of the outgoing-tx store be distinct, as the keys
  of a store are, and let \<open>lb\<close> be the batch of the token contract with the greatest
  nonce. If that nonce is not zero and the fees of \<open>lb\<close> are at least the fee sum of
  the first \<open>maxElements\<close> pool entries of the contract (of all of them when
  \<open>maxElements\<close> is negative), \<open>BuildBatchTx\<close> returns no batch and the state it
  returns is the state it was called in.
\<close>

theorem BuildBatchTx_not_profitable:
  assumes "distinct (map GetStoreIndex (outgoing s))"
      and "BatchTx lb \<in> set (outgoing s)"
      and "TokenContract lb = c"
      and "\<forall>b. BatchTx b \<in> set (outgoing s) \<and> TokenContract b = c \<longrightarrow> BatchNonce b \<le> BatchNonce lb"
      and "BatchNonce lb \<noteq> 0"
      and "fee_sum (first_unbatched s c maxElements) \<le> GetFees lb"
  shows "BuildBatchTx e c maxElements s = Inr (None, s)"
proof (cases "maxElements = 0")
  case True
  then show ?thesis by (simp add: BuildBatchTx_def)
next
  case False
  have "getLastOutgoingBatchByTokenType s c = Inr (Some lb)"
    using assms(1-5) by (rule getLastOutgoingBatchByTokenType_greatest)
  with assms(6) show ?thesis
    by (simp add: BuildBatchTx_unfold [OF False])
qed

text \<open>
  Scenario S2: after the batch of scenario S1, with fees 5, a second call finds only the
  fee 1 in the pool and builds nothing.
\<close>

theorem BuildBatchTx_not_profitable_witness:
  "distinct (map GetStoreIndex (outgoing s1_state))
   \<and> outgoing s1_state = [BatchTx s1_batch]
   \<and> TokenContract s1_batch = 1
   \<and> BatchNonce s1_batch \<noteq> 0
   \<and> fee_sum (first_unbatched s1_state 1 2) \<le> GetFees s1_batch
   \<and> BuildBatchTx burn_env 1 2 s1_state = Inr (None, s1_state)"
proof -
  have d: "distinct (map GetStoreIndex (outgoing s1_state))"
    by code_simp
  have out: "outgoing s1_state = [BatchTx s1_batch]"
    by code_simp
  have c: "TokenContract s1_batch = 1"
    by code_simp
  have nz: "BatchNonce s1_batch \<noteq> 0"
    by code_simp
  have fees: "fee_sum (first_unbatched s1_state 1 2) \<le> GetFees s1_batch"
    by code_simp
  have mem: "BatchTx s1_batch \<in> set (outgoing s1_state)"
    by (simp add: out)
  have max: "\<forall>b. BatchTx b \<in> set (outgoing s1_state) \<and> TokenContract b = 1 \<longrightarrow> BatchNonce b \<le> BatchNonce s1_batch"
    by (simp add: out)
  from BuildBatchTx_not_profitable [OF d mem c max nz fees, of burn_env] d out c nz fees
  show ?thesis by simp
qed

text \<open>
  A stored batch with the nonce zero is never found by the scan for the last batch, which
  starts from \<open>lastNonce = 0\<close> and looks for a strictly greater nonce: with such a batch
  of fees 5 and a pool entry of fee 2, a batch is built.
\<close>

theorem BuildBatchTx_nonce_zero_counterexample:
  "outgoing zero_nonce_state = [BatchTx batch_0]
   \<and> TokenContract batch_0 = 1
   \<and> fee_sum (first_unbatched zero_nonce_state 1 1) \<le> GetFees batch_0
   \<and> BuildBatchTx burn_env 1 1 zero_nonce_state = Inr (Some zero_next_batch, zero_next_state)
   \<and> BuildBatchTx burn_env 1 1 zero_nonce_state \<noteq> Inr (None, zero_nonce_state)"
  by code_simp

text \<open>
  Claim C10. For a negative \<open>maxElements\<close> the stop conditions of both callbacks never
  hold: the candidate fees are the fees of every pool entry of the contract; a batch
  that is built holds all of them and leaves no entry of the contract in the pool; and
  a batch is built whenever the pool of the contract is not empty, no stored batch
  makes it unprofitable and the timeout can be computed. With \<open>maxElements = 0\<close> the
  call returns at once, with no batch and the state unchanged.
\<close>

theorem BuildBatchTx_negative_maxElements:
  assumes "maxElements < 0"
  shows "getBatchFeesByTokenType s c maxElements
           = fee_sum (iterateUnbatchedSendToEthereumsByContract s c)
       \<and> (\<forall>b s'. BuildBatchTx e c maxElements s = Inr (Some b, s') \<longrightarrow>
             Transactions b = iterateUnbatchedSendToEthereumsByContract s c
             \<and> unbatched s' = filter (\<lambda>x. Contract (Erc20Fee x) \<noteq> c) (unbatched s)
             \<and> iterateUnbatchedSendToEthereumsByContract s' c = [])
       \<and> (iterateUnbatchedSendToEthereumsByContract s c \<noteq> []
           \<and> (\<forall>lb. getLastOutgoingBatchByTokenType s c = Inr (Some lb) \<longrightarrow>
                 GetFees lb < fee_sum (iterateUnbatchedSendToEthereumsByContract s c))
           \<and> (\<exists>t. getTimeoutHeight e s = Inr t) \<longrightarrow>
             (\<exists>b s'. BuildBatchTx e c maxElements s = Inr (Some b, s')))
       \<and> BuildBatchTx e c 0 s = Inr (None, s)"
proof -
  have nz: "maxElements \<noteq> 0" using assms by simp
  have all: "first_unbatched s c maxElements = iterateUnbatchedSendToEthereumsByContract s c"
    using assms by (simp add: first_unbatched_def)
  have fees: "getBatchFeesByTokenType s c maxElements
                = fee_sum (iterateUnbatchedSendToEthereumsByContract s c)"
    by (simp add: getBatchFeesByTokenType_eq [OF nz] all)
  have built: "Transactions b = iterateUnbatchedSendToEthereumsByContract s c
             \<and> unbatched s' = filter (\<lambda>x. Contract (Erc20Fee x) \<noteq> c) (unbatched s)
             \<and> iterateUnbatchedSendToEthereumsByContract s' c = []"
    if "BuildBatchTx e c maxElements s = Inr (Some b, s')" for b s'
  proof -
    from that have "Transactions b = iterateUnbatchedSendToEthereumsByContract s c
        \<and> unbatched s' = filter (\<lambda>x. Contract (Erc20Fee x) \<noteq> c) (unbatched s)"
      unfolding BuildBatchTx_unfold [OF nz] all
      by (auto simp: drained_pool split: sum.splits option.splits if_splits)
    then show ?thesis
      by (simp add: iterateUnbatched_drained)
  qed
  have runs: "\<exists>b s'. BuildBatchTx e c maxElements s = Inr (Some b, s')"
    if "iterateUnbatchedSendToEthereumsByContract s c \<noteq> []"
       "\<forall>lb. getLastOutgoingBatchByTokenType s c = Inr (Some lb) \<longrightarrow>
                 GetFees lb < fee_sum (iterateUnbatchedSendToEthereumsByContract s c)"
       "\<exists>t. getTimeoutHeight e s = Inr t"
  proof -
    from getLastOutgoingBatchByTokenType_Inr obtain r where r: "getLastOutgoingBatchByTokenType s c = Inr r"
      by blast
    from that(3) obtain t where t: "getTimeoutHeight e s = Inr t" by blast
    show ?thesis
      unfolding BuildBatchTx_unfold [OF nz] all
      using that(1,2) r t by (cases r) (auto simp: not_le)
  qed
  have early: "BuildBatchTx e c 0 s = Inr (None, s)"
    by (simp add: BuildBatchTx_def)
  from fees built runs early show ?thesis by blast
qed

text \<open>
  On the pool of scenario S1, \<open>maxElements = -1\<close> puts all three entries, fees 3, 2 and
  1, into one batch.
\<close>

theorem BuildBatchTx_negative_maxElements_witness:
  "(-1::int) < 0
   \<and> getBatchFeesByTokenType pool_state 1 (-1) = 6
   \<and> iterateUnbatchedSendToEthereumsByContract pool_state 1 = [ste_fee 1 3, ste_fee 3 2, ste_fee 2 1]
   \<and> BuildBatchTx burn_env 1 (-1) pool_state = Inr (Some drained_batch, drained_state)
   \<and> Transactions drained_batch = [ste_fee 1 3, ste_fee 3 2, ste_fee 2 1]
   \<and> iterateUnbatchedSendToEthereumsByContract drained_state 1 = []
   \<and> BuildBatchTx burn_env 1 0 pool_state = Inr (None, pool_state)"
proof -
  have neg: "(-1::int) < 0" by simp
  have pool: "iterateUnbatchedSendToEthereumsByContract pool_state 1 = [ste_fee 1 3, ste_fee 3 2, ste_fee 2 1]"
    by code_simp
  have sum: "fee_sum [ste_fee 1 3, ste_fee 3 2, ste_fee 2 1] = 6"
    by code_simp
  have built: "BuildBatchTx burn_env 1 (-1) pool_state = Inr (Some drained_batch, drained_state)"
    by code_simp
  have last: "getLastOutgoingBatchByTokenType pool_state 1 = Inr None"
    by code_simp
  have tmo: "getTimeoutHeight burn_env pool_state = Inr 0"
    by code_simp
  have ne: "iterateUnbatchedSendToEthereumsByContract pool_state 1 \<noteq> []"
    by (simp add: pool)
  note t = BuildBatchTx_negative_maxElements [OF neg, of pool_state 1 burn_env]
  from t have "getBatchFeesByTokenType pool_state 1 (-1)
                 = fee_sum (iterateUnbatchedSendToEthereumsByContract pool_state 1)"
    by blast
  then have fees: "getBatchFeesByTokenType pool_state 1 (-1) = 6"
    by (simp only: pool sum)
  from t built have "Transactions drained_batch = iterateUnbatchedSendToEthereumsByContract pool_state 1"
    and gone: "iterateUnbatchedSendToEthereumsByContract drained_state 1 = []"
    by blast+
  then have txs: "Transactions drained_batch = [ste_fee 1 3, ste_fee 3 2, ste_fee 2 1]"
    by (simp only: pool)
  from t ne last tmo have "\<exists>b s'. BuildBatchTx burn_env 1 (-1) pool_state = Inr (Some b, s')"
    by auto
  from t have early: "BuildBatchTx burn_env 1 0 pool_state = Inr (None, pool_state)"
    by blast
  from neg fees pool built txs gone early show ?thesis by blast
qed

lemma BuildBatchTx_counter:
  assumes "BuildBatchTx e c n s = Inr (r, s')"
  shows "(r = None \<and> s' = s)
       \<or> (\<exists>b. r = Some b \<and> BatchNonce b = batch_nonce_counter s + 1
              \<and> last_outgoing_batch_nonce s' = Some (BatchNonce b)
              \<and> GetOutgoingTx s' (GetStoreIndex (BatchTx b)) = Some (BatchTx b))"
proof (cases "n = 0")
  case True
  with assms show ?thesis by (simp add: BuildBatchTx_def)
next
  case False
  from assms show ?thesis
    unfolding BuildBatchTx_unfold [OF False]
    by (auto simp: GetOutgoingTx_def split: sum.splits option.splits if_splits)
qed

lemma batchTxExecuted_counter:
  assumes "batchTxExecuted e c n s = Inr (r, s')"
  shows "last_outgoing_batch_nonce s' = last_outgoing_batch_nonce s"
proof (cases "GetOutgoingTx s (MakeBatchTxKey c n)")
  case None
  with assms show ?thesis by (simp add: batchTxExecuted_def)
next
  case (Some otx)
  from GetOutgoingTx_Some_batch [OF Some] obtain B where "otx = BatchTx B" by blast
  with Some have found: "GetOutgoingTx s (MakeBatchTxKey c n) = Some (BatchTx B)" by simp
  from assms show ?thesis
    unfolding batchTxExecuted_found [OF found]
    by (auto simp: after_cancel_def fold_CancelBatchTx DeleteOutgoingTx_def
        split: prod.splits option.splits if_splits)
qed

lemma apply_op_counter:
  assumes "\<not> is_migration op" and "apply_op e op s = Inr s'"
  shows "batch_nonce_counter s' = batch_nonce_counter s
       \<or> batch_nonce_counter s' = batch_nonce_counter s + 1"
proof (cases op)
  case (OpBuildBatchTx c n)
  with assms(2) obtain r where "BuildBatchTx e c n s = Inr (r, s')"
    by (auto split: sum.splits)
  from BuildBatchTx_counter [OF this] show ?thesis
    by (auto simp: batch_nonce_counter_def)
next
  case (OpBatchTxExecuted c n)
  with assms(2) obtain r where "batchTxExecuted e c n s = Inr (r, s')"
    by (auto split: sum.splits option.splits)
  from batchTxExecuted_counter [OF this] show ?thesis
    by (simp add: batch_nonce_counter_def)
next
  case (OpCancelBatchTx b)
  with assms(2) show ?thesis
    by (auto simp: CancelBatchTx_eq batch_nonce_counter_def)
next
  case (OpSetUnbatchedSendToEthereum ste)
  with assms(2) show ?thesis
    by (auto simp: setUnbatchedSendToEthereum_def batch_nonce_counter_def)
next
  case (OpSetEthereumSignature idx sg val)
  with assms(2) show ?thesis
    by (auto simp: SetEthereumSignature_def batch_nonce_counter_def)
next
  case OpCreateSignerSetTx
  with assms(2) show ?thesis
    by (auto simp: CreateSignerSetTx_def incrementLatestSignerSetTxNonce_def SetOutgoingTx_def
        EmitEvent_def batch_nonce_counter_def Let_def split: sum.splits)
next
  case (OpMigrateGravityContract a h)
  with assms(1) show ?thesis by simp
qed

lemma unat_Suc_no_wrap:
  "unat (x :: u64) + 1 < 2 ^ 64 \<Longrightarrow> unat (x + 1) = unat x + 1"
  using unat_add_lem [of x 1] by simp

lemma run_counter:
  assumes "\<forall>c \<in> set calls. \<not> is_migration (snd c)"
      and "unat (batch_nonce_counter s) + length calls < 2 ^ 64"
  shows "unat (batch_nonce_counter s) \<le> unat (batch_nonce_counter (run calls s))
       \<and> unat (batch_nonce_counter (run calls s)) \<le> unat (batch_nonce_counter s) + length calls"
  using assms
proof (induction calls arbitrary: s)
  case Nil
  then show ?case by simp
next
  case (Cons c calls)
  show ?case
  proof (cases "apply_op (fst c) (snd c) s")
    case (Inl err)
    with Cons.IH [of s] Cons.prems show ?thesis by simp
  next
    case (Inr s')
    have nm: "\<not> is_migration (snd c)" using Cons.prems(1) by simp
    from apply_op_counter [OF nm Inr] have
      "unat (batch_nonce_counter s') = unat (batch_nonce_counter s)
       \<or> unat (batch_nonce_counter s') = unat (batch_nonce_counter s) + 1"
      using Cons.prems(2) by (auto simp: unat_Suc_no_wrap)
    moreover then have "unat (batch_nonce_counter s') + length calls < 2 ^ 64"
      using Cons.prems(2) by auto
    ultimately show ?thesis
      using Cons.IH [of s'] Cons.prems(1) Inr by auto
  qed
qed

text \<open>
  Claim C5, as amended. Let a call of \<open>BuildBatchTx\<close> create the batch \<open>b1\<close>, let any
  calls other than \<open>MigrateGravityContract\<close> follow, and let a later call of
  \<open>BuildBatchTx\<close> create the batch \<open>b2\<close>. If the \<open>uint64\<close> counter cannot wrap
  on the way, the nonce of \<open>b2\<close> is strictly greater than the nonce of \<open>b1\<close>. The
  nonce of a created batch is the stored counter plus one, and the state that holds the
  batch holds that nonce as the new counter.
\<close>

theorem BuildBatchTx_nonces_increase:
  assumes "BuildBatchTx e1 c1 n1 s = Inr (Some b1, s1)"
      and "\<forall>c \<in> set calls. \<not> is_migration (snd c)"
      and "BuildBatchTx e2 c2 n2 (run calls s1) = Inr (Some b2, s2)"
      and "unat (batch_nonce_counter s) + length calls + 2 < 2 ^ 64"
  shows "BatchNonce b1 < BatchNonce b2
       \<and> BatchNonce b1 = batch_nonce_counter s + 1
       \<and> last_outgoing_batch_nonce s1 = Some (BatchNonce b1)
       \<and> GetOutgoingTx s1 (GetStoreIndex (BatchTx b1)) = Some (BatchTx b1)
       \<and> BatchNonce b2 = batch_nonce_counter (run calls s1) + 1
       \<and> last_outgoing_batch_nonce s2 = Some (BatchNonce b2)
       \<and> GetOutgoingTx s2 (GetStoreIndex (BatchTx b2)) = Some (BatchTx b2)"
proof -
  from BuildBatchTx_counter [OF assms(1)] have
    n1: "BatchNonce b1 = batch_nonce_counter s + 1"
    and c1: "last_outgoing_batch_nonce s1 = Some (BatchNonce b1)"
    and o1: "GetOutgoingTx s1 (GetStoreIndex (BatchTx b1)) = Some (BatchTx b1)"
    by auto
  from BuildBatchTx_counter [OF assms(3)] have
    n2: "BatchNonce b2 = batch_nonce_counter (run calls s1) + 1"
    and c2: "last_outgoing_batch_nonce s2 = Some (BatchNonce b2)"
    and o2: "GetOutgoingTx s2 (GetStoreIndex (BatchTx b2)) = Some (BatchTx b2)"
    by auto
  have u1: "unat (BatchNonce b1) = unat (batch_nonce_counter s) + 1"
    using assms(4) by (simp add: n1 unat_Suc_no_wrap)
  have cnt1: "batch_nonce_counter s1 = BatchNonce b1"
    by (simp add: batch_nonce_counter_def c1)
  have "unat (batch_nonce_counter s1) + length calls < 2 ^ 64"
    using assms(4) by (simp add: cnt1 u1)
  from run_counter [OF assms(2) this] have
    lo: "unat (BatchNonce b1) \<le> unat (batch_nonce_counter (run calls s1))"
    and hi: "unat (batch_nonce_counter (run calls s1)) \<le> unat (BatchNonce b1) + length calls"
    by (simp_all add: cnt1)
  have "unat (batch_nonce_counter (run calls s1)) + 1 < 2 ^ 64"
    using hi u1 assms(4) by simp
  then have u2: "unat (BatchNonce b2) = unat (batch_nonce_counter (run calls s1)) + 1"
    by (simp add: n2 unat_Suc_no_wrap)
  have "BatchNonce b1 < BatchNonce b2"
    using lo u2 by (simp add: word_less_nat_alt)
  with n1 c1 o1 n2 c2 o2 show ?thesis by simp
qed

text \<open>
  Scenario S1 followed by a new pool entry of fee 10 and a second build: the nonces are
  1 and 2.
\<close>

theorem BuildBatchTx_nonces_increase_witness:
  "BuildBatchTx burn_env 1 2 pool_state = Inr (Some s1_batch, s1_state)
   \<and> BuildBatchTx burn_env 1 2 (run next_calls s1_state) = Inr (Some s2_batch, s2_state)
   \<and> BatchNonce s1_batch < BatchNonce s2_batch
   \<and> last_outgoing_batch_nonce s1_state = Some (BatchNonce s1_batch)
   \<and> last_outgoing_batch_nonce s2_state = Some (BatchNonce s2_batch)"
proof -
  have b1: "BuildBatchTx burn_env 1 2 pool_state = Inr (Some s1_batch, s1_state)"
    by code_simp
  have b2: "BuildBatchTx burn_env 1 2 (run next_calls s1_state) = Inr (Some s2_batch, s2_state)"
    by code_simp
  have nm: "\<forall>c \<in> set next_calls. \<not> is_migration (snd c)"
    by code_simp
  have c0: "batch_nonce_counter pool_state = 0"
    by code_simp
  have len: "length next_calls = 1"
    by code_simp
  have nw: "unat (batch_nonce_counter pool_state) + length next_calls + 2 < 2 ^ 64"
    by (simp add: c0 len)
  from BuildBatchTx_nonces_increase [OF b1 nm b2 nw] b1 b2 show ?thesis by blast
qed

section \<open>Migration: properties\<close>

lemma DeleteEthereumSignatures_eq:
  "DeleteEthereumSignatures otx s =
     s\<lparr>kv := filter (\<lambda>e. \<not> prefix (EthereumSignatureKey # GetStoreIndex otx) (fst e)) (kv s)\<rparr>"
proof -
  have "filter (\<lambda>e. fst e \<notin> fst ` set (prefix_iterator (EthereumSignatureKey # GetStoreIndex otx) (kv s))) (kv s)
        = filter (\<lambda>e. \<not> prefix (EthereumSignatureKey # GetStoreIndex otx) (fst e)) (kv s)"
    by (rule filter_cong) (auto simp: set_prefix_iterator image_iff)
  then show ?thesis
    by (simp add: DeleteEthereumSignatures_def fold_store_delete)
qed

lemma fold_sweep_outgoing:
  "fold sweep_outgoing L s =
     s\<lparr>kv := filter (\<lambda>e. \<forall>otx \<in> set L. \<not> prefix (EthereumSignatureKey # GetStoreIndex otx) (fst e)) (kv s),
       outgoing := filter (\<lambda>x. GetStoreIndex x \<notin> GetStoreIndex ` set L) (outgoing s)\<rparr>"
proof (induction L arbitrary: s)
  case Nil
  then show ?case by simp
next
  case (Cons otx L)
  have sigs: "filter (\<lambda>e. \<forall>x \<in> set L. \<not> prefix (EthereumSignatureKey # GetStoreIndex x) (fst e))
             (filter (\<lambda>e. \<not> prefix (EthereumSignatureKey # GetStoreIndex otx) (fst e)) (kv s))
           = filter (\<lambda>e. \<forall>x \<in> set (otx # L). \<not> prefix (EthereumSignatureKey # GetStoreIndex x) (fst e)) (kv s)"
    by (auto intro: filter_cong)
  have outs: "filter (\<lambda>x. GetStoreIndex x \<notin> GetStoreIndex ` set L)
             (filter (\<lambda>x. GetStoreIndex x \<noteq> GetStoreIndex otx) (outgoing s))
           = filter (\<lambda>x. GetStoreIndex x \<notin> GetStoreIndex ` set (otx # L)) (outgoing s)"
    by (auto intro: filter_cong)
  show ?case
    by (simp add: Cons.IH) (simp add: sweep_outgoing_def DeleteEthereumSignatures_eq DeleteOutgoingTx_def sigs outs)
qed


lemma reset_cb_step:
  "reset_cb e r s =
     (case reset_votes e (Votes (snd r)) s of Inl err \<Rightarrow> Inl err | Inr s' \<Rightarrow> Inr (s', False))"
  by (simp add: reset_cb_def)



lemma MigrateGravityContract_returns:
  assumes "\<forall>r \<in> set (event_vote_records s). \<forall>v \<in> set (Votes (snd r)). ValAddressFromBech32 e v \<noteq> None"
  shows "\<exists>s'. MigrateGravityContract e newBridgeAddress bridgeDeploymentHeight s = Inr s'"
proof -
  have votes: "\<exists>s'. reset_votes e vs st = Inr s'"
    if "\<forall>v \<in> set vs. ValAddressFromBech32 e v \<noteq> None" for vs st
    using that by (induction vs arbitrary: st) auto
  have loop: "\<exists>s'. iterate_cb_err (reset_cb e) recs st = Inr s'"
    if "\<forall>r \<in> set recs. \<forall>v \<in> set (Votes (snd r)). ValAddressFromBech32 e v \<noteq> None" for recs st
    using that
  proof (induction recs arbitrary: st)
    case Nil
    then show ?case by simp
  next
    case (Cons r recs)
    from votes [of "Votes (snd r)" st] Cons.prems obtain s1 where s1: "reset_votes e (Votes (snd r)) st = Inr s1"
      by auto
    have step: "reset_cb e r st = Inr (s1, False)"
      by (simp add: reset_cb_step [of e r st] s1)
    from Cons.IH [of s1] Cons.prems show ?case
      by (simp add: step)
  qed
  define s3 where "s3 = setLastObservedEventNonce 0
     ((fold sweep_outgoing (iterateOutgoingTxs s) s)\<lparr>latest_signer_set_tx_nonce := Some 0\<rparr>)"
  have "event_vote_records s3 = event_vote_records s"
    by (simp add: s3_def setLastObservedEventNonce_def fold_sweep_outgoing)
  then have "set (iterateEthereumEventVoteRecords s3) = set (event_vote_records s)"
    by (simp add: iterateEthereumEventVoteRecords_def)
  with loop [of "iterateEthereumEventVoteRecords s3" s3] assms
  obtain s4 where "iterate_cb_err (reset_cb e) (iterateEthereumEventVoteRecords s3) s3 = Inr s4"
    by auto
  then show ?thesis
    by (simp add: MigrateGravityContract_def Let_def s3_def [symmetric])
qed





text \<open>
  A migration between two builds sets the counter back to zero, and the second batch
  gets the nonce of the first.
\<close>

theorem BuildBatchTx_nonce_reused_counterexample:
  "BuildBatchTx burn_env 1 2 pool_state = Inr (Some s1_batch, s1_state)
   \<and> MigrateGravityContract burn_env ''0xnew'' 500 s1_state = Inr remigrated_state
   \<and> BuildBatchTx burn_env 1 2 remigrated_state = Inr (Some rebuilt_batch, rebuilt_state)
   \<and> BatchNonce s1_batch = 1
   \<and> BatchNonce rebuilt_batch = 1
   \<and> \<not> BatchNonce s1_batch < BatchNonce rebuilt_batch"
  by code_simp

end
